theory Spec2Isabelle
  imports Complex_Main
begin

section \<open>JavaScript values, strings and failures\<close>

text \<open>
  The development embeds \<^verbatim>\<open>src/src/color-conversion.js\<close>. A JavaScript string is a
  \<^typ>\<open>string\<close>: a list of code units below 256 (Latin-1). A JavaScript number is a
  \<^typ>\<open>real\<close>: arithmetic is exact, so the rounding of IEEE doubles is not part of the
  model; \<open>NaN\<close> is written out wherever the source can produce it.

  A value that crosses the public interface is a string, an absent value (\<open>null\<close> or
  \<open>undefined\<close>, which the code never tells apart) or a member that a plain object
  inherits from \<open>Object.prototype\<close>, which a table lookup can return.
\<close>

datatype jsval = Str string | Absent | Inherited string

text \<open>
  \<open>TypeError\<close> is the exception the source raises when it destructures \<open>null\<close> or
  calls a string method on a value that is not a string. \<open>OutOfModel\<close> marks the inputs
  whose result depends on the binary representation of a double (the base-16 rendering of
  a number with a fractional part).
\<close>

datatype failure = TypeError | OutOfModel

definition truthy :: "jsval \<Rightarrow> bool" where
  "truthy v = (case v of Str s \<Rightarrow> s \<noteq> [] | Absent \<Rightarrow> False | Inherited _ \<Rightarrow> True)"

definition orElse :: "jsval \<Rightarrow> jsval \<Rightarrow> jsval" where
  \<comment> \<open>\<^verbatim>\<open>a || b\<close>\<close>
  "orElse a b = (if truthy a then a else b)"

definition isWhiteSpace :: "char \<Rightarrow> bool" where
  \<comment> \<open>WhiteSpace and LineTerminator code units below 256\<close>
  "isWhiteSpace c =
     (c = CHR 0x09 \<or> c = CHR 0x0A \<or> c = CHR 0x0B \<or> c = CHR 0x0C \<or> c = CHR 0x0D \<or>
      c = CHR 0x20 \<or> c = CHR 0xA0)"

definition trim :: "string \<Rightarrow> string" where
  "trim s = rev (dropWhile isWhiteSpace (rev (dropWhile isWhiteSpace s)))"

definition lowerChar :: "char \<Rightarrow> char" where
  "lowerChar c =
     (let n = (of_char c :: nat) in
      if (65 \<le> n \<and> n \<le> 90) \<or> (192 \<le> n \<and> n \<le> 222 \<and> n \<noteq> 215)
      then char_of (n + 32) else c)"

definition toLowerCase :: "string \<Rightarrow> string" where
  "toLowerCase s = map lowerChar s"

definition startsWith :: "string \<Rightarrow> string \<Rightarrow> bool" where
  \<comment> \<open>\<^verbatim>\<open>s.startsWith(p)\<close>\<close>
  "startsWith s p = (take (length p) s = p)"

definition padStart :: "nat \<Rightarrow> char \<Rightarrow> string \<Rightarrow> string" where
  "padStart n c s = replicate (n - length s) c @ s"

section \<open>The named-colour table\<close>

definition COLOR_NAMES :: "(string \<times> string) list" where
  "COLOR_NAMES = [
    (''aliceblue'', ''#f0f8ff''), (''antiquewhite'', ''#faebd7''), (''aqua'', ''#00ffff''),
    (''aquamarine'', ''#7fffd4''), (''azure'', ''#f0ffff''), (''beige'', ''#f5f5dc''),
    (''bisque'', ''#ffe4c4''), (''black'', ''#000000''), (''blanchedalmond'', ''#ffebcd''),
    (''blue'', ''#0000ff''), (''blueviolet'', ''#8a2be2''), (''brown'', ''#a52a2a''),
    (''burlywood'', ''#deb887''), (''cadetblue'', ''#5f9ea0''), (''chartreuse'', ''#7fff00''),
    (''chocolate'', ''#d2691e''), (''coral'', ''#ff7f50''), (''cornflowerblue'', ''#6495ed''),
    (''cornsilk'', ''#fff8dc''), (''crimson'', ''#dc143c''), (''cyan'', ''#00ffff''),
    (''darkblue'', ''#00008b''), (''darkcyan'', ''#008b8b''), (''darkgoldenrod'', ''#b8860b''),
    (''darkgray'', ''#a9a9a9''), (''darkgreen'', ''#006400''), (''darkgrey'', ''#a9a9a9''),
    (''darkkhaki'', ''#bdb76b''), (''darkmagenta'', ''#8b008b''), (''darkolivegreen'', ''#556b2f''),
    (''darkorange'', ''#ff8c00''), (''darkorchid'', ''#9932cc''), (''darkred'', ''#8b0000''),
    (''darksalmon'', ''#e9967a''), (''darkseagreen'', ''#8fbc8f''), (''darkslateblue'', ''#483d8b''),
    (''darkslategray'', ''#2f4f4f''), (''darkslategrey'', ''#2f4f4f''), (''darkturquoise'', ''#00ced1''),
    (''darkviolet'', ''#9400d3''), (''deeppink'', ''#ff1493''), (''deepskyblue'', ''#00bfff''),
    (''dimgray'', ''#696969''), (''dimgrey'', ''#696969''), (''dodgerblue'', ''#1e90ff''),
    (''firebrick'', ''#b22222''), (''floralwhite'', ''#fffaf0''), (''forestgreen'', ''#228b22''),
    (''fuchsia'', ''#ff00ff''), (''gainsboro'', ''#dcdcdc''), (''ghostwhite'', ''#f8f8ff''),
    (''gold'', ''#ffd700''), (''goldenrod'', ''#daa520''), (''gray'', ''#808080''),
    (''green'', ''#008000''), (''greenyellow'', ''#adff2f''), (''grey'', ''#808080''),
    (''honeydew'', ''#f0fff0''), (''hotpink'', ''#ff69b4''), (''indianred'', ''#cd5c5c''),
    (''indigo'', ''#4b0082''), (''ivory'', ''#fffff0''), (''khaki'', ''#f0e68c''),
    (''lavender'', ''#e6e6fa''), (''lavenderblush'', ''#fff0f5''), (''lawngreen'', ''#7cfc00''),
    (''lemonchiffon'', ''#fffacd''), (''lightblue'', ''#add8e6''), (''lightcoral'', ''#f08080''),
    (''lightcyan'', ''#e0ffff''), (''lightgoldenrodyellow'', ''#fafad2''), (''lightgray'', ''#d3d3d3''),
    (''lightgreen'', ''#90ee90''), (''lightgrey'', ''#d3d3d3''), (''lightpink'', ''#ffb6c1''),
    (''lightsalmon'', ''#ffa07a''), (''lightseagreen'', ''#20b2aa''), (''lightskyblue'', ''#87cefa''),
    (''lightslategray'', ''#778899''), (''lightslategrey'', ''#778899''), (''lightsteelblue'', ''#b0c4de''),
    (''lightyellow'', ''#ffffe0''), (''lime'', ''#00ff00''), (''limegreen'', ''#32cd32''),
    (''linen'', ''#faf0e6''), (''magenta'', ''#ff00ff''), (''maroon'', ''#800000''),
    (''mediumaquamarine'', ''#66cdaa''), (''mediumblue'', ''#0000cd''), (''mediumorchid'', ''#ba55d3''),
    (''mediumpurple'', ''#9370db''), (''mediumseagreen'', ''#3cb371''), (''mediumslateblue'', ''#7b68ee''),
    (''mediumspringgreen'', ''#00fa9a''), (''mediumturquoise'', ''#48d1cc''), (''mediumvioletred'', ''#c71585''),
    (''midnightblue'', ''#191970''), (''mintcream'', ''#f5fffa''), (''mistyrose'', ''#ffe4e1''),
    (''moccasin'', ''#ffe4b5''), (''navajowhite'', ''#ffdead''), (''navy'', ''#000080''),
    (''oldlace'', ''#fdf5e6''), (''olive'', ''#808000''), (''olivedrab'', ''#6b8e23''),
    (''orange'', ''#ffa500''), (''orangered'', ''#ff4500''), (''orchid'', ''#da70d6''),
    (''palegoldenrod'', ''#eee8aa''), (''palegreen'', ''#98fb98''), (''paleturquoise'', ''#afeeee''),
    (''palevioletred'', ''#db7093''), (''papayawhip'', ''#ffefd5''), (''peachpuff'', ''#ffdab9''),
    (''peru'', ''#cd853f''), (''pink'', ''#ffc0cb''), (''plum'', ''#dda0dd''),
    (''powderblue'', ''#b0e0e6''), (''purple'', ''#800080''), (''red'', ''#ff0000''),
    (''rosybrown'', ''#bc8f8f''), (''royalblue'', ''#4169e1''), (''saddlebrown'', ''#8b4513''),
    (''salmon'', ''#fa8072''), (''sandybrown'', ''#f4a460''), (''seagreen'', ''#2e8b57''),
    (''seashell'', ''#fff5ee''), (''sienna'', ''#a0522d''), (''silver'', ''#c0c0c0''),
    (''skyblue'', ''#87ceeb''), (''slateblue'', ''#6a5acd''), (''slategray'', ''#708090''),
    (''slategrey'', ''#708090''), (''snow'', ''#fffafa''), (''springgreen'', ''#00ff7f''),
    (''steelblue'', ''#4682b4''), (''tan'', ''#d2b48c''), (''teal'', ''#008080''),
    (''thistle'', ''#d8bfd8''), (''tomato'', ''#ff6347''), (''turquoise'', ''#40e0d0''),
    (''violet'', ''#ee82ee''), (''wheat'', ''#f5deb3''), (''white'', ''#ffffff''),
    (''whitesmoke'', ''#f5f5f5''), (''yellow'', ''#ffff00''), (''yellowgreen'', ''#9acd32'')
  ]"

text \<open>
  Reading \<^verbatim>\<open>obj[key]\<close> on a plain object: an own property wins, then the members of
  \<open>Object.prototype\<close>, else \<open>undefined\<close>.
\<close>

definition objectPrototypeKeys :: "string list" where
  "objectPrototypeKeys =
     [''constructor'', ''__proto__'', ''hasOwnProperty'', ''isPrototypeOf'',
      ''propertyIsEnumerable'', ''toLocaleString'', ''toString'', ''valueOf'',
      ''__defineGetter__'', ''__defineSetter__'', ''__lookupGetter__'', ''__lookupSetter__'']"

definition getProp :: "(string \<rightharpoonup> string) \<Rightarrow> string \<Rightarrow> jsval" where
  "getProp obj k =
     (case obj k of
        Some v \<Rightarrow> Str v
      | None \<Rightarrow> if k \<in> set objectPrototypeKeys then Inherited k else Absent)"

definition namedColorToHex :: "string \<Rightarrow> jsval" where
  "namedColorToHex v = orElse (getProp (map_of COLOR_NAMES) (toLowerCase v)) (Str v)"

text \<open>
  The reverse table is built on first use and cached in the module variable
  \<^verbatim>\<open>HEX_TO_NAMES\<close>; the cache is the only state of the module and is passed explicitly.
  An empty object is truthy, so a built table is never rebuilt.
\<close>

type_synonym cache = "(string \<rightharpoonup> string) option"

definition buildHexToNames :: "(string \<times> string) list \<Rightarrow> (string \<rightharpoonup> string)" where
  \<comment> \<open>the loop over \<^verbatim>\<open>Object.entries(COLOR_NAMES)\<close>: a later name overwrites\<close>
  "buildHexToNames entries = foldl (\<lambda>m (name, hex). m(hex \<mapsto> name)) Map.empty entries"

definition getHexToNameMap :: "cache \<Rightarrow> (string \<rightharpoonup> string) \<times> cache" where
  "getHexToNameMap c =
     (case c of
        Some m \<Rightarrow> (m, c)
      | None \<Rightarrow> (let m = buildHexToNames COLOR_NAMES in (m, Some m)))"

definition hexToName :: "cache \<Rightarrow> jsval \<Rightarrow> (failure + jsval) \<times> cache" where
  "hexToName c hex =
     (case hex of
        Absent \<Rightarrow> (Inr (Str ''black''), c)
      | Inherited _ \<Rightarrow> (Inl TypeError, c)
      | Str h0 \<Rightarrow>
          if h0 = [] then (Inr (Str ''black''), c)
          else
            let h1 = toLowerCase h0;
                h = (if length h1 = 4
                     then [CHR ''#'', h1 ! 1, h1 ! 1, h1 ! 2, h1 ! 2, h1 ! 3, h1 ! 3]
                     else h1);
                (m, c') = getHexToNameMap c
            in (Inr (orElse (getProp m h) (Str h)), c'))"

section \<open>Numbers in text\<close>

definition isDigit :: "char \<Rightarrow> bool" where
  \<comment> \<open>the class \<^verbatim>\<open>\d\<close>\<close>
  "isDigit c = (let n = (of_char c :: nat) in 48 \<le> n \<and> n \<le> 57)"

definition digitVal :: "char \<Rightarrow> nat" where
  "digitVal c = of_char c - 48"

text \<open>
  \<^verbatim>\<open>value.match(/\d+(\.\d+)?/g)\<close>: every match from left to right. A match is a greedy run
  of digits, followed by a point and a second greedy run when the point has a digit after
  it. The empty list stands for the \<open>null\<close> that \<open>match\<close> returns when nothing matches.
\<close>

function matchNumbers :: "string \<Rightarrow> string list" where
  "matchNumbers [] = []"
| "matchNumbers (c # cs) =
     (if isDigit c then
        (let whole = c # takeWhile isDigit cs; rest = dropWhile isDigit cs in
         case rest of
           d # e # rest' \<Rightarrow>
             if d = CHR ''.'' \<and> isDigit e
             then (whole @ d # e # takeWhile isDigit rest') # matchNumbers (dropWhile isDigit rest')
             else whole # matchNumbers rest
         | _ \<Rightarrow> whole # matchNumbers rest)
      else matchNumbers cs)"
  by pat_completeness auto

termination
proof -
  have le: "length (dropWhile isDigit xs) < Suc (length xs)" for xs :: string
    using length_dropWhile_le [of isDigit xs] by simp
  have whole: "(rest, c # cs) \<in> measure length"
    if "rest = dropWhile isDigit cs" for rest cs :: string and c :: char
    using that le [of cs] by simp
  have fraction: "(dropWhile isDigit rest', c # cs) \<in> measure length"
    if "rest = dropWhile isDigit cs" and "rest = d # tl" and "tl = e # rest'"
    for rest cs tl rest' :: string and c d e :: char
  proof -
    have "length (dropWhile isDigit cs) = Suc (Suc (length rest'))"
      using that by (metis length_Cons)
    then show ?thesis
      using le [of cs] le [of rest'] by simp
  qed
  show ?thesis
    by (relation "measure length") (simp, (blast intro: whole fraction)+, simp)
qed

definition digitsValue :: "string \<Rightarrow> nat" where
  "digitsValue ds = foldl (\<lambda>a c. 10 * a + digitVal c) 0 ds"

definition Number :: "string \<Rightarrow> real" where
  \<comment> \<open>\<^verbatim>\<open>Number(t)\<close> for a match of the pattern above: digits, or digits, a point and digits\<close>
  "Number t =
     (let whole = takeWhile isDigit t; frac = drop (Suc (length whole)) t in
      real (digitsValue whole) + real (digitsValue frac) / 10 ^ length frac)"

definition digitChar :: "nat \<Rightarrow> char" where
  "digitChar d = ''0123456789abcdefghijklmnopqrstuvwxyz'' ! d"

function natToString :: "nat \<Rightarrow> nat \<Rightarrow> string" where
  "natToString b n =
     (if b < 2 \<or> n < b then [digitChar n]
      else natToString b (n div b) @ [digitChar (n mod b)])"
  by pat_completeness auto

termination
  by (relation "measure snd") auto

definition intToString :: "nat \<Rightarrow> int \<Rightarrow> string" where
  \<comment> \<open>\<^verbatim>\<open>i.toString(b)\<close> for an integer \<open>i\<close>; base 10 is what a template literal prints\<close>
  "intToString b i =
     (if i < 0 then CHR ''-'' # natToString b (nat (- i)) else natToString b (nat i))"

definition toFixed :: "nat \<Rightarrow> real \<Rightarrow> string" where
  \<comment> \<open>\<^verbatim>\<open>x.toFixed(d)\<close> below \<open>10^21\<close>: the nearest multiple of \<open>10^-d\<close>, the larger on a tie\<close>
  "toFixed d x =
     (let sign = (if x < 0 then ''-'' else []);
          n = nat (round (\<bar>x\<bar> * 10 ^ d));
          m = padStart (Suc d) (CHR ''0'') (natToString 10 n)
      in sign @ take (length m - d) m @ (if d = 0 then [] else CHR ''.'' # drop (length m - d) m))"

definition toInt32 :: "int \<Rightarrow> int" where
  \<comment> \<open>wrap into the signed 32-bit range\<close>
  "toInt32 i = (i + 2 ^ 31) mod 2 ^ 32 - 2 ^ 31"

definition truncate :: "real \<Rightarrow> int" where
  "truncate x = (if x < 0 then \<lceil>x\<rceil> else \<lfloor>x\<rfloor>)"

definition shiftLeft :: "real \<Rightarrow> nat \<Rightarrow> int" where
  \<comment> \<open>\<^verbatim>\<open>x << k\<close>\<close>
  "shiftLeft x k = toInt32 (toInt32 (truncate x) * 2 ^ k)"

definition jsmod :: "real \<Rightarrow> real \<Rightarrow> real" where
  \<comment> \<open>\<^verbatim>\<open>x % y\<close>: the remainder has the sign of \<open>x\<close>\<close>
  "jsmod x y = x - y * of_int (truncate (x / y))"

definition isHexDigit :: "char \<Rightarrow> bool" where
  "isHexDigit c =
     (let n = (of_char c :: nat) in
      (48 \<le> n \<and> n \<le> 57) \<or> (97 \<le> n \<and> n \<le> 102) \<or> (65 \<le> n \<and> n \<le> 70))"

definition hexDigitVal :: "char \<Rightarrow> nat" where
  "hexDigitVal c =
     (let n = (of_char c :: nat) in
      if n \<le> 57 then n - 48 else if 97 \<le> n then n - 87 else n - 55)"

definition parseInt16 :: "string \<Rightarrow> int option" where
  \<comment> \<open>\<^verbatim>\<open>parseInt(s, 16)\<close>: leading white space, a sign and a \<^verbatim>\<open>0x\<close> prefix are skipped,
      then the longest run of hex digits is read; \<open>None\<close> is \<open>NaN\<close>\<close>
  "parseInt16 s =
     (let s1 = dropWhile isWhiteSpace s;
          neg = startsWith s1 ''-'';
          s2 = (if neg \<or> startsWith s1 ''+'' then drop 1 s1 else s1);
          s3 = (if startsWith s2 ''0x'' \<or> startsWith s2 ''0X'' then drop 2 s2 else s2);
          ds = takeWhile isHexDigit s3;
          n = int (foldl (\<lambda>a c. 16 * a + hexDigitVal c) 0 ds)
      in if ds = [] then None else Some (if neg then - n else n))"

section \<open>Shared helpers\<close>

definition toDoubleHex :: "real \<Rightarrow> string" where
  \<comment> \<open>\<^verbatim>\<open>Math.round(v * 255).toString(16).padStart(2, '0')\<close>\<close>
  "toDoubleHex v = padStart 2 (CHR ''0'') (intToString 16 (round (v * 255)))"

definition toDoubleHexN :: "real option \<Rightarrow> string" where
  \<comment> \<open>the same on a channel that may be \<open>NaN\<close>\<close>
  "toDoubleHexN v = (case v of None \<Rightarrow> ''NaN'' | Some x \<Rightarrow> toDoubleHex x)"

definition clamp :: "real \<Rightarrow> real" where
  "clamp v = min 1 (max 0 v)"

definition parseHexToRgb :: "string \<Rightarrow> real option \<times> real option \<times> real option" where
  \<comment> \<open>a channel is \<open>None\<close> when \<open>parseInt\<close> gave \<open>NaN\<close>; the bit operations of the long
      form turn \<open>NaN\<close> into 0\<close>
  "parseHexToRgb hex0 =
     (let hex = (if startsWith hex0 ''#'' then drop 1 hex0 else hex0) in
      if length hex = 3 then
        (map_option (\<lambda>i. real_of_int i / 255) (parseInt16 [hex ! 0, hex ! 0]),
         map_option (\<lambda>i. real_of_int i / 255) (parseInt16 [hex ! 1, hex ! 1]),
         map_option (\<lambda>i. real_of_int i / 255) (parseInt16 [hex ! 2, hex ! 2]))
      else
        (let val = toInt32 (case parseInt16 hex of None \<Rightarrow> 0 | Some i \<Rightarrow> i) in
         (Some (real_of_int ((val div 2 ^ 16) mod 256) / 255),
          Some (real_of_int ((val div 2 ^ 8) mod 256) / 255),
          Some (real_of_int (val mod 256) / 255))))"

definition linearize :: "real \<Rightarrow> real" where
  "linearize c = (if c \<le> 0.04045 then c / 12.92 else ((c + 0.055) / 1.055) powr 2.4)"

definition sRgbToLinear :: "real \<times> real \<times> real \<Rightarrow> real \<times> real \<times> real" where
  "sRgbToLinear rgb = (case rgb of (r, g, b) \<Rightarrow> (linearize r, linearize g, linearize b))"

definition gamma :: "real \<Rightarrow> real" where
  "gamma v = (if v \<le> 0.0031308 then 12.92 * v else 1.055 * v powr (1 / 2.4) - 0.055)"

definition atan2 :: "real \<Rightarrow> real \<Rightarrow> real" where
  \<comment> \<open>\<^verbatim>\<open>Math.atan2(y, x)\<close>\<close>
  "atan2 y x =
     (if 0 < x then arctan (y / x)
      else if x < 0 then (if 0 \<le> y then arctan (y / x) + pi else arctan (y / x) - pi)
      else if 0 < y then pi / 2
      else if y < 0 then - pi / 2
      else 0)"

section \<open>Conversions to hex\<close>

definition rgbToHexNum :: "real \<Rightarrow> real \<Rightarrow> real \<Rightarrow> failure + string" where
  \<comment> \<open>\<^verbatim>\<open>`#${((1 << 24) + (r << 16) + (g << 8) + b).toString(16).slice(1)}`\<close>; the sum is a
      number, and only an integer has a base-16 rendering in this model\<close>
  "rgbToHexNum r g b =
     (let n = real_of_int (2 ^ 24 + shiftLeft r 16 + shiftLeft g 8) + b in
      if frac n = 0 then Inr (CHR ''#'' # drop 1 (intToString 16 \<lfloor>n\<rfloor>))
      else Inl OutOfModel)"

definition rgbToHex :: "string \<Rightarrow> failure + string" where
  \<comment> \<open>with one or two numbers \<open>b\<close> is \<open>undefined\<close>, the sum is \<open>NaN\<close> and
      \<^verbatim>\<open>"NaN".slice(1)\<close> is left\<close>
  "rgbToHex v =
     (case map Number (matchNumbers v) of
        [] \<Rightarrow> Inl TypeError
      | r # g # b # _ \<Rightarrow> rgbToHexNum r g b
      | _ \<Rightarrow> Inr ''#aN'')"

definition hslToHexNum :: "real \<Rightarrow> real \<Rightarrow> real \<Rightarrow> string" where
  "hslToHexNum h s l =
     (let sPct = s / 100; lPct = l / 100;
          k = (\<lambda>n. jsmod (n + h / 30) 12);
          a = sPct * min lPct (1 - lPct);
          f = (\<lambda>n. lPct - a * max (- 1) (min (k n - 3) (min (9 - k n) 1)))
      in CHR ''#'' # toDoubleHex (f 0) @ toDoubleHex (f 8) @ toDoubleHex (f 4))"

definition hslToHex :: "string \<Rightarrow> failure + string" where
  \<comment> \<open>with one or two numbers \<open>lPct\<close> is \<open>NaN\<close>, and so is every channel\<close>
  "hslToHex v =
     (case map Number (matchNumbers v) of
        [] \<Rightarrow> Inl TypeError
      | h # s # l # _ \<Rightarrow> Inr (hslToHexNum h s l)
      | _ \<Rightarrow> Inr ''#NaNNaNNaN'')"

definition pureHue :: "real \<Rightarrow> string" where
  \<comment> \<open>\<^verbatim>\<open>hslToHex(`hsl(${h}, 100%, 50%)`)\<close>. A number prints in plain decimal when it is 0 or
      in \<open>[10^-6, 10^21)\<close> and is read back unchanged. Otherwise it prints with an
      exponent, the pattern reads mantissa and exponent as hue and saturation, lightness
      becomes 100 and the colour is white.\<close>
  "pureHue h =
     (if h = 0 \<or> (1 / 10 ^ 6 \<le> h \<and> h < 10 ^ 21) then hslToHexNum h 100 50 else ''#ffffff'')"

definition hwbToHexNum :: "real \<Rightarrow> real \<Rightarrow> real \<Rightarrow> string" where
  "hwbToHexNum h w b =
     (let wPct = w / 100; bPct = b / 100 in
      if wPct + bPct \<ge> 1 then
        (let gray = wPct / (wPct + bPct) in
         CHR ''#'' # toDoubleHex gray @ toDoubleHex gray @ toDoubleHex gray)
      else
        (let rgb = pureHue h;
             mix = (\<lambda>c. c * (1 - wPct - bPct) + wPct)
         in case parseHexToRgb rgb of
              (r', g', b') \<Rightarrow>
                CHR ''#'' # toDoubleHexN (map_option mix r') @ toDoubleHexN (map_option mix g')
                  @ toDoubleHexN (map_option mix b')))"

definition hwbToHex :: "string \<Rightarrow> failure + string" where
  \<comment> \<open>with one or two numbers \<open>bPct\<close> is \<open>NaN\<close>: the comparison fails and every mixed
      channel is \<open>NaN\<close>\<close>
  "hwbToHex v =
     (case map Number (matchNumbers v) of
        [] \<Rightarrow> Inl TypeError
      | h # w # b # _ \<Rightarrow> Inr (hwbToHexNum h w b)
      | _ \<Rightarrow> Inr ''#NaNNaNNaN'')"

definition lchToHexNum :: "real \<Rightarrow> real \<Rightarrow> real \<Rightarrow> string" where
  "lchToHexNum l c h =
     (let rad = h * (pi / 180);
          a = c * cos rad;
          b = c * sin rad;
          y0 = (l + 16) / 116;
          x0 = a / 500 + y0;
          z0 = y0 - b / 200;
          cube = (\<lambda>v. if v * v * v > 0.008856 then v * v * v else (v - 16 / 116) / 7.787);
          x = 95.047 * cube x0;
          y = 100.000 * cube y0;
          z = 108.883 * cube z0;
          r = x * 0.032406 + y * (- 0.015372) + z * (- 0.004986);
          g = x * (- 0.009689) + y * 0.018758 + z * 0.000415;
          bl = x * 0.000557 + y * (- 0.002040) + z * 0.010570
      in CHR ''#'' # toDoubleHex (clamp (gamma r)) @ toDoubleHex (clamp (gamma g))
           @ toDoubleHex (clamp (gamma bl)))"

definition lchToHex :: "string \<Rightarrow> failure + string" where
  \<comment> \<open>with one or two numbers \<open>h\<close> is \<open>undefined\<close>, \<open>a\<close> and \<open>b\<close> are \<open>NaN\<close>, and so is
      every channel\<close>
  "lchToHex v =
     (case map Number (matchNumbers v) of
        [] \<Rightarrow> Inl TypeError
      | l # c # h # _ \<Rightarrow> Inr (lchToHexNum l c h)
      | _ \<Rightarrow> Inr ''#NaNNaNNaN'')"

definition oklchToHexNum :: "real \<Rightarrow> real \<Rightarrow> real \<Rightarrow> string" where
  \<comment> \<open>\<open>l'\<close>, \<open>m'\<close>, \<open>s'\<close> are the source's \<^verbatim>\<open>l_\<close>, \<^verbatim>\<open>m_\<close>, \<^verbatim>\<open>s_\<close>\<close>
  "oklchToHexNum l c h =
     (let rad = h * (pi / 180);
          a = c * cos rad;
          b = c * sin rad;
          l' = l + 0.3963377774 * a + 0.2158037573 * b;
          m' = l - 0.1055613458 * a - 0.0638541728 * b;
          s' = l - 0.0894841775 * a - 1.2914855480 * b;
          l3 = l' * l' * l';
          m3 = m' * m' * m';
          s3 = s' * s' * s';
          r = 4.0767416621 * l3 - 3.3077115913 * m3 + 0.2309699292 * s3;
          g = - 1.2684380046 * l3 + 2.6097574011 * m3 - 0.3413193965 * s3;
          bl = - 0.0041960863 * l3 - 0.7034186147 * m3 + 1.7076147010 * s3
      in CHR ''#'' # toDoubleHex (clamp (gamma r)) @ toDoubleHex (clamp (gamma g))
           @ toDoubleHex (clamp (gamma bl)))"

definition oklchToHex :: "string \<Rightarrow> failure + string" where
  "oklchToHex v =
     (case map Number (matchNumbers v) of
        [] \<Rightarrow> Inl TypeError
      | l # c # h # _ \<Rightarrow> Inr (oklchToHexNum l c h)
      | _ \<Rightarrow> Inr ''#NaNNaNNaN'')"

definition toHex :: "jsval \<Rightarrow> failure + jsval" where
  \<comment> \<open>\<^verbatim>\<open>console.error\<close> returns \<open>undefined\<close>; a truthy value that is not a string has no
      \<open>trim\<close>\<close>
  "toHex v =
     (case v of
        Absent \<Rightarrow> Inr Absent
      | Inherited _ \<Rightarrow> Inl TypeError
      | Str v0 \<Rightarrow>
          if v0 = [] then Inr Absent
          else
            let v = trim v0 in
            if startsWith v ''#'' then Inr (Str v)
            else if startsWith v ''rgb'' then map_sum id Str (rgbToHex v)
            else if startsWith v ''hsl'' then map_sum id Str (hslToHex v)
            else if startsWith v ''hwb'' then map_sum id Str (hwbToHex v)
            else if startsWith v ''lch'' then map_sum id Str (lchToHex v)
            else if startsWith v ''oklch'' then map_sum id Str (oklchToHex v)
            else Inr (namedColorToHex v))"

section \<open>Conversions from hex\<close>

definition roundN :: "real option \<Rightarrow> string" where
  \<comment> \<open>\<^verbatim>\<open>`${Math.round(x)}`\<close>, where \<open>None\<close> is \<open>NaN\<close>\<close>
  "roundN x = (case x of None \<Rightarrow> ''NaN'' | Some y \<Rightarrow> intToString 10 (round y))"

definition hexToRgb :: "string \<Rightarrow> string" where
  "hexToRgb hex =
     (case parseHexToRgb hex of
        (r, g, b) \<Rightarrow>
          ''rgb('' @ roundN (map_option (\<lambda>x. x * 255) r) @ '', ''
            @ roundN (map_option (\<lambda>x. x * 255) g) @ '', ''
            @ roundN (map_option (\<lambda>x. x * 255) b) @ '')'')"

definition hueOf :: "real \<Rightarrow> real \<Rightarrow> real \<Rightarrow> real" where
  \<comment> \<open>the \<^verbatim>\<open>switch (max)\<close> of \<open>hexToHsl\<close> and \<open>hexToHwb\<close> with the division by 6 after it,
      reached only when the channels are not all equal; the cases are tried in the
      order \<open>r\<close>, \<open>g\<close>, \<open>b\<close>\<close>
  "hueOf r g b =
     (let mx = max r (max g b); mn = min r (min g b); d = mx - mn in
      (if mx = r then (g - b) / d + (if g < b then 6 else 0)
       else if mx = g then (b - r) / d + 2
       else (r - g) / d + 4) / 6)"

definition hslOf :: "real \<Rightarrow> real \<Rightarrow> real \<Rightarrow> real \<times> real \<times> real" where
  \<comment> \<open>the numbers \<open>(h, s, l)\<close> that \<open>hexToHsl\<close> computes before it rounds them\<close>
  "hslOf r g b =
     (let mx = max r (max g b); mn = min r (min g b); l = (mx + mn) / 2 in
      if mx = mn then (0, 0, l)
      else
        (let d = mx - mn;
             s = (if l > 0.5 then d / (2 - mx - mn) else d / (mx + mn))
         in (hueOf r g b, s, l)))"

definition hexToHsl :: "string \<Rightarrow> string" where
  \<comment> \<open>when a channel is \<open>NaN\<close>, so are \<open>max\<close> and \<open>min\<close>: no case of the switch is taken
      and all three numbers are \<open>NaN\<close>\<close>
  "hexToHsl hex =
     (case parseHexToRgb hex of
        (Some r, Some g, Some b) \<Rightarrow>
          (case hslOf r g b of
             (h, s, l) \<Rightarrow>
               ''hsl('' @ intToString 10 (round (h * 360)) @ '', ''
                 @ intToString 10 (round (s * 100)) @ ''%, ''
                 @ intToString 10 (round (l * 100)) @ ''%)'')
      | _ \<Rightarrow> ''hsl(NaN, NaN%, NaN%)'')"

definition hwbOf :: "real \<Rightarrow> real \<Rightarrow> real \<Rightarrow> real \<times> real \<times> real" where
  "hwbOf r g b =
     (let mx = max r (max g b); mn = min r (min g b); w = mn; bl = 1 - mx in
      (if mx = mn then 0 else hueOf r g b, w, bl))"

definition hexToHwb :: "string \<Rightarrow> string" where
  "hexToHwb hex =
     (case parseHexToRgb hex of
        (Some r, Some g, Some b) \<Rightarrow>
          (case hwbOf r g b of
             (h, w, bl) \<Rightarrow>
               ''hwb('' @ intToString 10 (round (h * 360)) @ '' ''
                 @ intToString 10 (round (w * 100)) @ ''% ''
                 @ intToString 10 (round (bl * 100)) @ ''%)'')
      | _ \<Rightarrow> ''hwb(NaN NaN% NaN%)'')"

definition hexToLchNum :: "real \<times> real \<times> real \<Rightarrow> string" where
  "hexToLchNum rgb =
     (case sRgbToLinear rgb of
        (r, g, b) \<Rightarrow>
          (let x0 = (r * 0.4124 + g * 0.3576 + b * 0.1805) * 100;
               y0 = (r * 0.2126 + g * 0.7152 + b * 0.0722) * 100;
               z0 = (r * 0.0193 + g * 0.1192 + b * 0.9505) * 100;
               refX = 95.047; refY = 100.000; refZ = 108.883;
               f = (\<lambda>t. if t > 0.008856 then root 3 t else 7.787 * t + 16 / 116);
               x = f (x0 / refX); y = f (y0 / refY); z = f (z0 / refZ);
               L = 116 * y - 16;
               a = 500 * (x - y);
               bVal = 200 * (y - z);
               C = sqrt (a * a + bVal * bVal);
               H0 = atan2 bVal a * (180 / pi);
               H = (if H0 < 0 then H0 + 360 else H0)
           in ''lch('' @ toFixed 2 L @ ''% '' @ toFixed 3 C @ '' '' @ toFixed 2 H @ '')''))"

definition hexToLch :: "string \<Rightarrow> string" where
  "hexToLch hex =
     (case parseHexToRgb hex of
        (Some r, Some g, Some b) \<Rightarrow> hexToLchNum (r, g, b)
      | _ \<Rightarrow> ''lch(NaN% NaN NaN)'')"

definition hexToOklchNum :: "real \<times> real \<times> real \<Rightarrow> string" where
  \<comment> \<open>\<open>l'\<close>, \<open>m'\<close>, \<open>s'\<close> are the source's \<^verbatim>\<open>l_\<close>, \<^verbatim>\<open>m_\<close>, \<^verbatim>\<open>s_\<close>\<close>
  "hexToOklchNum rgb =
     (case sRgbToLinear rgb of
        (r, g, b) \<Rightarrow>
          (let l' = 0.4122214708 * r + 0.5363325363 * g + 0.0514459929 * b;
               m' = 0.2119034982 * r + 0.6806995451 * g + 0.1073969566 * b;
               s' = 0.0883024619 * r + 0.2817188376 * g + 0.6299787005 * b;
               l_c = root 3 l';
               m_c = root 3 m';
               s_c = root 3 s';
               L = 0.2104542553 * l_c + 0.7936177850 * m_c - 0.0040720468 * s_c;
               a = 1.9779984951 * l_c - 2.4285922050 * m_c + 0.4505937099 * s_c;
               bVal = 0.0259040371 * l_c + 0.7827717662 * m_c - 0.8086757660 * s_c;
               C = sqrt (a * a + bVal * bVal);
               H0 = atan2 bVal a * (180 / pi);
               H = (if H0 < 0 then H0 + 360 else H0)
           in ''oklch('' @ toFixed 3 L @ '' '' @ toFixed 3 C @ '' '' @ toFixed 2 H @ '')''))"

definition hexToOklch :: "string \<Rightarrow> string" where
  "hexToOklch hex =
     (case parseHexToRgb hex of
        (Some r, Some g, Some b) \<Rightarrow> hexToOklchNum (r, g, b)
      | _ \<Rightarrow> ''oklch(NaN NaN NaN)'')"

definition onString :: "(string \<Rightarrow> string) \<Rightarrow> cache \<Rightarrow> jsval \<Rightarrow> (failure + jsval) \<times> cache" where
  \<comment> \<open>a call of a converter whose first step is a string method of its argument; a truthy
      value that is not a string has none\<close>
  "onString conv c hex =
     (case hex of Str h \<Rightarrow> (Inr (Str (conv h)), c) | _ \<Rightarrow> (Inl TypeError, c))"

definition hexTo :: "cache \<Rightarrow> jsval \<Rightarrow> jsval \<Rightarrow> (failure + jsval) \<times> cache" where
  "hexTo c hex format =
     (if \<not> truthy hex \<or> \<not> truthy format then (Inr hex, c)
      else
        case format of
          Str fmt \<Rightarrow>
            (let f = toLowerCase fmt in
             if f = ''rgb'' then onString hexToRgb c hex
             else if f = ''hsl'' then onString hexToHsl c hex
             else if f = ''hwb'' then onString hexToHwb c hex
             else if f = ''lch'' then onString hexToLch c hex
             else if f = ''oklch'' then onString hexToOklch c hex
             else if f = ''name'' then hexToName c hex
             else (Inr hex, c))
        | _ \<Rightarrow> (Inl TypeError, c))"

text \<open>The composition \<^verbatim>\<open>toHex(hexTo(hex, format))\<close> of the two entry points.\<close>

definition toHex_hexTo :: "cache \<Rightarrow> string \<Rightarrow> string \<Rightarrow> failure + jsval" where
  "toHex_hexTo c hex format =
     (case fst (hexTo c (Str hex) (Str format)) of Inl e \<Rightarrow> Inl e | Inr v \<Rightarrow> toHex v)"

section \<open>Input classes named by the specification\<close>

definition isLowerHexDigit :: "char \<Rightarrow> bool" where
  "isLowerHexDigit c = (c \<in> set ''0123456789abcdef'')"

definition hexNotation :: "string \<Rightarrow> bool" where
  \<comment> \<open>a \<^verbatim>\<open>#\<close> and three or six hex digits of either case\<close>
  "hexNotation s =
     (case s of
        [] \<Rightarrow> False
      | c # ds \<Rightarrow> c = CHR ''#'' \<and> (length ds = 3 \<or> length ds = 6) \<and> list_all isHexDigit ds)"

definition canonicalHex :: "string \<Rightarrow> bool" where
  \<comment> \<open>a \<^verbatim>\<open>#\<close> and six lowercase hex digits\<close>
  "canonicalHex s =
     (case s of
        [] \<Rightarrow> False
      | c # ds \<Rightarrow> c = CHR ''#'' \<and> length ds = 6 \<and> list_all isLowerHexDigit ds)"

definition numberToken :: "string \<Rightarrow> bool" where
  \<comment> \<open>the strings that the pattern \<^verbatim>\<open>\d+(\.\d+)?\<close> matches as a whole\<close>
  "numberToken t =
     (let whole = takeWhile isDigit t; rest = dropWhile isDigit t in
      whole \<noteq> [] \<and>
      (case rest of
         [] \<Rightarrow> True
       | c # fs \<Rightarrow> c = CHR ''.'' \<and> fs \<noteq> [] \<and> list_all isDigit fs))"

text \<open>
  The closure \<^verbatim>\<open>f\<close> of \<open>hslToHex\<close> with its free variables as parameters, and the inputs
  on which the three roundings of \<open>hexToHsl\<close> change nothing.
\<close>

definition hslChannel :: "real \<Rightarrow> real \<Rightarrow> real \<Rightarrow> real \<Rightarrow> real" where
  "hslChannel h s l n =
     (let sPct = s / 100; lPct = l / 100;
          k = jsmod (n + h / 30) 12;
          a = sPct * min lPct (1 - lPct)
      in lPct - a * max (- 1) (min (k - 3) (min (9 - k) 1)))"

definition tri :: "real \<Rightarrow> real" where
  \<comment> \<open>the factor \<^verbatim>\<open>Math.max(-1, Math.min(k - 3, Math.min(9 - k, 1)))\<close> of \<^verbatim>\<open>f\<close>\<close>
  "tri k = max (- 1) (min (k - 3) (min (9 - k) 1))"

definition hslExact :: "string \<Rightarrow> bool" where
  "hslExact hex =
     (case parseHexToRgb hex of
        (Some r, Some g, Some b) \<Rightarrow>
          (case hslOf r g b of
             (h, s, l) \<Rightarrow> frac (h * 360) = 0 \<and> frac (s * 100) = 0 \<and> frac (l * 100) = 0)
      | _ \<Rightarrow> False)"

section \<open>Evaluation lemmas\<close>

declare natToString.simps [simp del]

declare matchNumbers.simps [simp del]

lemma natToString_small: "n < b \<Longrightarrow> natToString b n = [digitChar n]"
  by (simp add: natToString.simps [of b n])

lemma natToString_step:
  "2 \<le> b \<Longrightarrow> b \<le> n \<Longrightarrow> natToString b n = natToString b (n div b) @ [digitChar (n mod b)]"
  by (simp add: natToString.simps [of b n])

lemmas string_defs = trim_def isWhiteSpace_def startsWith_def toLowerCase_def

lemmas number_defs = matchNumbers.simps isDigit_def Number_def digitsValue_def digitVal_def intToString_def
  digitChar_def padStart_def natToString_small natToString_step round_def

lemmas lookup_defs = namedColorToHex_def getProp_def orElse_def truthy_def
  objectPrototypeKeys_def

section \<open>Dispatch of \<open>hexTo\<close> and \<open>hexToName\<close>\<close>

text \<open>
  Claim C10. When its argument is absent (\<open>null\<close> or \<open>undefined\<close>) or the empty string,
  \<open>hexToName\<close> returns the string \<open>black\<close>; it neither fails nor returns its argument, and
  it leaves the cache of the reverse table as it was.
\<close>

theorem hexToName_absent_is_black:
  "hexToName c Absent = (Inr (Str ''black''), c) \<and> hexToName c (Str []) = (Inr (Str ''black''), c)"
  by (simp add: hexToName_def)

text \<open>
  Claim C7. For a string \<open>h\<close> and a target format that is absent, or whose lowercase form
  is none of \<open>rgb\<close>, \<open>hsl\<close>, \<open>hwb\<close>, \<open>lch\<close>, \<open>oklch\<close>, \<open>name\<close>, \<open>hexTo\<close> returns \<open>h\<close>
  itself and leaves the cache as it was.
\<close>

theorem hexTo_identity_fallback:
  assumes "format = Absent \<or>
    (\<exists>f. format = Str f \<and>
       toLowerCase f \<notin> set [''rgb'', ''hsl'', ''hwb'', ''lch'', ''oklch'', ''name''])"
  shows "hexTo c (Str h) format = (Inr (Str h), c)"
proof -
  consider "format = Absent"
    | f where "format = Str f"
        "toLowerCase f \<notin> set [''rgb'', ''hsl'', ''hwb'', ''lch'', ''oklch'', ''name'']"
    using assms by blast
  then show ?thesis
  proof cases
    case 1
    then show ?thesis by (simp add: hexTo_def truthy_def)
  next
    case 2
    then show ?thesis by (simp add: hexTo_def truthy_def Let_def)
  qed
qed

theorem hexTo_identity_fallback_witness:
  "hexTo None (Str ''#ff0000'') Absent = (Inr (Str ''#ff0000''), None) \<and>
   hexTo None (Str ''#ff0000'') (Str ''cmyk'') = (Inr (Str ''#ff0000''), None) \<and>
   hexTo None (Str ''#ff0000'') (Str []) = (Inr (Str ''#ff0000''), None)"
proof -
  have cmyk:
    "toLowerCase ''cmyk'' \<notin> set [''rgb'', ''hsl'', ''hwb'', ''lch'', ''oklch'', ''name'']"
    by (simp add: toLowerCase_def lowerChar_def)
  have empty:
    "toLowerCase [] \<notin> set [''rgb'', ''hsl'', ''hwb'', ''lch'', ''oklch'', ''name'']"
    by (simp add: toLowerCase_def)
  show ?thesis
    using hexTo_identity_fallback [of Absent None "''#ff0000''"]
      hexTo_identity_fallback [of "Str ''cmyk''" None "''#ff0000''"] cmyk
      hexTo_identity_fallback [of "Str []" None "''#ff0000''"] empty
    by simp
qed

section \<open>Dispatch of \<open>toHex\<close>\<close>

lemma dropWhile_unchanged: "xs \<noteq> [] \<Longrightarrow> \<not> P (hd xs) \<Longrightarrow> dropWhile P xs = xs"
  by (cases xs) simp_all

lemma trim_unchanged:
  assumes "s \<noteq> []" and "\<not> isWhiteSpace (hd s)" and "\<not> isWhiteSpace (last s)"
  shows "trim s = s"
proof -
  have front: "dropWhile isWhiteSpace s = s"
    using assms(1,2) by (rule dropWhile_unchanged)
  have "rev s \<noteq> []" and "\<not> isWhiteSpace (hd (rev s))"
    using assms(1,3) by (simp_all add: hd_rev)
  then have "dropWhile isWhiteSpace (rev s) = rev s"
    by (rule dropWhile_unchanged)
  then show ?thesis
    by (simp add: trim_def front)
qed

lemma hex_digit_not_white: "isHexDigit c \<Longrightarrow> \<not> isWhiteSpace c"
  by (auto simp: isHexDigit_def isWhiteSpace_def)

lemma hexNotation_trim:
  assumes "hexNotation s"
  shows "trim s = s" and "s \<noteq> []" and "startsWith s ''#''"
proof -
  obtain ds where s: "s = CHR ''#'' # ds" and len: "length ds = 3 \<or> length ds = 6"
    and hex: "list_all isHexDigit ds"
    using assms by (auto simp: hexNotation_def split: list.splits)
  have "ds \<noteq> []"
    using len by auto
  then have "last s \<in> set ds"
    using s by simp
  then have "isHexDigit (last s)"
    using hex by (simp add: list_all_iff)
  then have "\<not> isWhiteSpace (last s)"
    by (rule hex_digit_not_white)
  moreover have "\<not> isWhiteSpace (hd s)"
    by (simp add: s isWhiteSpace_def)
  ultimately show "trim s = s"
    using s by (intro trim_unchanged) simp_all
  show "s \<noteq> []" and "startsWith s ''#''"
    by (simp_all add: s startsWith_def)
qed

text \<open>
  Claim C1, as the code has it. For every string in hex notation (a \<open>#\<close> and three or six
  hex digits of either case) \<open>toHex\<close> returns the string itself: a canonical input comes
  back canonical, and neither is a three-digit form expanded nor an upper-case digit
  lowered.
\<close>

theorem toHex_hex_unchanged:
  assumes "hexNotation s"
  shows "toHex (Str s) = Inr (Str s)"
  using hexNotation_trim [OF assms] by (simp add: toHex_def)

theorem toHex_hex_unchanged_witness:
  "hexNotation ''#ABC'' \<and> toHex (Str ''#ABC'') = Inr (Str ''#ABC'')"
proof -
  have h: "hexNotation ''#ABC''"
    by (simp add: hexNotation_def isHexDigit_def)
  show ?thesis
    using h toHex_hex_unchanged [OF h] by simp
qed

text \<open>The claim as the specification states it fails: \<^verbatim>\<open>#ABC\<close> is not expanded to \<^verbatim>\<open>#aabbcc\<close>.\<close>

theorem toHex_shorthand_not_expanded:
  "hexNotation ''#ABC'' \<and> toHex (Str ''#ABC'') \<noteq> Inr (Str ''#aabbcc'')"
  by (simp add: hexNotation_def isHexDigit_def toHex_def string_defs)

lemma trim_Nil: "trim [] = []"
  by (simp add: trim_def)

text \<open>
  Claim C9. When the trimmed input begins with \<open>oklch\<close>, \<open>toHex\<close> returns what \<open>oklchToHex\<close>
  returns on the trimmed input; the test for the prefix \<open>lch\<close>, which comes first in the
  source, does not hold for such an input.
\<close>

theorem toHex_oklch_dispatch:
  assumes "startsWith (trim s) ''oklch''"
  shows "toHex (Str s) = map_sum id Str (oklchToHex (trim s)) \<and> \<not> startsWith (trim s) ''lch''"
proof -
  obtain rest where t: "trim s = ''oklch'' @ rest"
    using assms unfolding startsWith_def by (metis append_take_drop_id)
  have "s \<noteq> []"
    using t trim_Nil by auto
  then show ?thesis
    by (simp add: toHex_def t startsWith_def)
qed

theorem toHex_oklch_dispatch_witness:
  "startsWith (trim '' oklch(60% 0.15 180)'') ''oklch'' \<and>
   toHex (Str '' oklch(60% 0.15 180)'') = map_sum id Str (oklchToHex ''oklch(60% 0.15 180)'') \<and>
   \<not> startsWith (trim '' oklch(60% 0.15 180)'') ''lch''"
proof -
  have t: "trim '' oklch(60% 0.15 180)'' = ''oklch(60% 0.15 180)''"
    by (simp add: string_defs)
  have h: "startsWith (trim '' oklch(60% 0.15 180)'') ''oklch''"
    by (simp add: t startsWith_def)
  show ?thesis
    using h toHex_oklch_dispatch [OF h] by (simp add: t)
qed

section \<open>Named colours\<close>

text \<open>
  Claim C5. The lookup lowers the case of the keyword, so \<open>red\<close> and \<open>RED\<close> both give
  \<^verbatim>\<open>#ff0000\<close>. The table has no entry \<open>rebeccapurple\<close>: on \<open>REBECCAPURPLE\<close> the code
  returns the input and not \<^verbatim>\<open>#663399\<close>.
\<close>

theorem toHex_named_colours:
  "toHex (Str ''red'') = Inr (Str ''#ff0000'') \<and>
   toHex (Str ''RED'') = Inr (Str ''#ff0000'') \<and>
   map_of COLOR_NAMES ''rebeccapurple'' = None \<and>
   toHex (Str ''REBECCAPURPLE'') = Inr (Str ''REBECCAPURPLE'')"
proof -
  have lower: "toLowerCase ''red'' = ''red''" "toLowerCase ''RED'' = ''red''"
    "toLowerCase ''REBECCAPURPLE'' = ''rebeccapurple''"
    by code_simp+
  have red: "map_of COLOR_NAMES ''red'' = Some ''#ff0000''"
    by (simp add: COLOR_NAMES_def)
  have rebecca: "map_of COLOR_NAMES ''rebeccapurple'' = None"
    by (simp add: COLOR_NAMES_def)
  show ?thesis
    by (simp add: toHex_def trim_def isWhiteSpace_def startsWith_def lookup_defs lower red rebecca)
qed

text \<open>
  Claim C4. On \<open>not-a-color\<close>, which has no functional prefix, is no hex string and is no
  keyword of the table, the code reports no failure: it returns the input string.
\<close>

theorem toHex_unknown_name_returned:
  "map_of COLOR_NAMES (toLowerCase ''not-a-color'') = None \<and>
   toHex (Str ''not-a-color'') = Inr (Str ''not-a-color'')"
proof -
  have lower: "toLowerCase ''not-a-color'' = ''not-a-color''"
    by code_simp
  have miss: "map_of COLOR_NAMES ''not-a-color'' = None"
    by (simp add: COLOR_NAMES_def)
  show ?thesis
    by (simp add: toHex_def trim_def isWhiteSpace_def startsWith_def lookup_defs lower miss)
qed

section \<open>Round trip through \<open>rgb\<close> notation\<close>

subsection \<open>Hex digits\<close>

lemma length6: "length ds = 6 \<Longrightarrow> \<exists>a b c d e f. ds = [a, b, c, d, e, f]"
  by (auto simp: numeral_eq_Suc length_Suc_conv)

lemma digit_roundtrip: "isLowerHexDigit c \<Longrightarrow> hexDigitVal c < 16 \<and> digitChar (hexDigitVal c) = c"
  by (auto simp: isLowerHexDigit_def hexDigitVal_def digitChar_def)

lemma lower_is_hex: "isLowerHexDigit c \<Longrightarrow> isHexDigit c"
  by (auto simp: isLowerHexDigit_def isHexDigit_def)

lemma lower_hex_plain:
  assumes "isLowerHexDigit c"
  shows "\<not> isWhiteSpace c" "c \<noteq> CHR ''-''" "c \<noteq> CHR ''+''" "c \<noteq> CHR ''x''" "c \<noteq> CHR ''X''"
  using assms by (auto simp: isLowerHexDigit_def isWhiteSpace_def)



lemma parseInt16_six:
  assumes "list_all isLowerHexDigit [a, b, c, d, e, f]"
  shows "parseInt16 [a, b, c, d, e, f] =
    Some (int (((((hexDigitVal a * 16 + hexDigitVal b) * 16 + hexDigitVal c) * 16 + hexDigitVal d) * 16
      + hexDigitVal e) * 16 + hexDigitVal f))"
proof -
  have hex: "isHexDigit a" "isHexDigit b" "isHexDigit c" "isHexDigit d" "isHexDigit e" "isHexDigit f"
    using assms by (simp_all add: lower_is_hex)
  have plain: "\<not> isWhiteSpace a" "a \<noteq> CHR ''-''" "a \<noteq> CHR ''+''" "b \<noteq> CHR ''x''" "b \<noteq> CHR ''X''"
    using assms by (simp_all add: lower_hex_plain)
  show ?thesis
    by (simp add: parseInt16_def startsWith_def hex plain Let_def mult.commute)
qed


subsection \<open>Decimal numbers: printing, matching, reading\<close>

lemma digitChar_digit: "d < 10 \<Longrightarrow> isDigit (digitChar d) \<and> digitVal (digitChar d) = d"
proof -
  assume "d < 10"
  then have "d \<in> set [0..<10]" by simp
  also have "[0..<10] = [0, 1, 2, 3, 4, 5, 6, 7, 8, 9 :: nat]"
    by (simp add: upt_rec)
  finally show ?thesis
    by (auto simp: digitChar_def isDigit_def digitVal_def)
qed

lemma natToString_digits:
  "natToString 10 n \<noteq> [] \<and> list_all isDigit (natToString 10 n) \<and> digitsValue (natToString 10 n) = n"
proof (induction n rule: less_induct)
  case (less n)
  show ?case
  proof (cases "n < 10")
    case True
    then show ?thesis
      by (simp add: natToString_small digitChar_digit digitsValue_def)
  next
    case False
    then have step: "natToString 10 n = natToString 10 (n div 10) @ [digitChar (n mod 10)]"
      by (simp add: natToString_step)
    have "n div 10 < n"
      using False by simp
    then have ih: "natToString 10 (n div 10) \<noteq> []" "list_all isDigit (natToString 10 (n div 10))"
      "digitsValue (natToString 10 (n div 10)) = n div 10"
      using less.IH by simp_all
    have d: "isDigit (digitChar (n mod 10))" "digitVal (digitChar (n mod 10)) = n mod 10"
      by (simp_all add: digitChar_digit)
    show ?thesis
      using ih d by (simp add: step digitsValue_def)
  qed
qed

lemma digitsValue_Nil: "digitsValue [] = 0"
  by (simp add: digitsValue_def)

lemma Number_natToString: "Number (natToString 10 n) = real n"
proof -
  have "\<forall>c\<in>set (natToString 10 n). isDigit c"
    using natToString_digits [of n] by (simp add: list_all_iff)
  then have tw: "takeWhile isDigit (natToString 10 n) = natToString 10 n"
    by (simp add: takeWhile_eq_all_conv)
  show ?thesis
    unfolding Number_def Let_def tw by (simp add: natToString_digits digitsValue_Nil)
qed

lemma matchNumbers_skip: "\<not> isDigit c \<Longrightarrow> matchNumbers (c # cs) = matchNumbers cs"
  by (simp add: matchNumbers.simps)

lemma matchNumbers_digits:
  assumes "ds \<noteq> []" and "list_all isDigit ds" and "\<not> isDigit c" and "c \<noteq> CHR ''.''"
  shows "matchNumbers (ds @ c # cs) = ds # matchNumbers cs"
proof -
  obtain x xs where ds: "ds = x # xs"
    using assms(1) by (cases ds) auto
  have x: "isDigit x" and xs: "\<forall>y\<in>set xs. isDigit y"
    using assms(2) by (simp_all add: ds list_all_iff)
  have tw: "takeWhile isDigit (xs @ c # cs) = xs"
    using xs assms(3) by (simp add: takeWhile_append2)
  have dw: "dropWhile isDigit (xs @ c # cs) = c # cs"
    using xs assms(3) by (simp add: dropWhile_append2)
  have "matchNumbers (x # xs @ c # cs) = (x # xs) # matchNumbers (c # cs)"
    using x assms(4) by (simp add: matchNumbers.simps(2) [of x] tw dw Let_def split: list.splits)
  then show ?thesis
    using assms(3) by (simp add: ds matchNumbers_skip)
qed


lemma rgb_tokens:
  "map Number (matchNumbers (''rgb('' @ natToString 10 r @ '', '' @ natToString 10 g @ '', ''
      @ natToString 10 b @ '')'')) = [real r, real g, real b]"
proof -
  have nd: "\<not> isDigit CHR ''r''" "\<not> isDigit CHR ''g''" "\<not> isDigit CHR ''b''" "\<not> isDigit CHR ''(''"
    "\<not> isDigit CHR '',''" "\<not> isDigit CHR '' ''" "\<not> isDigit CHR '')''"
    by (simp_all add: isDigit_def)
  have tok: "matchNumbers (natToString 10 n @ c # cs) = natToString 10 n # matchNumbers cs"
    if "\<not> isDigit c" "c \<noteq> CHR ''.''" for n c cs
    using that natToString_digits [of n] by (intro matchNumbers_digits) simp_all
  have "matchNumbers (''rgb('' @ natToString 10 r @ '', '' @ natToString 10 g @ '', ''
      @ natToString 10 b @ '')'') = [natToString 10 r, natToString 10 g, natToString 10 b]"
    by (simp add: matchNumbers_skip nd tok matchNumbers.simps(1))
  then show ?thesis
    by (simp add: Number_natToString)
qed

subsection \<open>Bytes and base 16\<close>

lemma toInt32_small: "0 \<le> i \<Longrightarrow> i < 2 ^ 31 \<Longrightarrow> toInt32 i = i"
  by (simp add: toInt32_def)

lemma shiftLeft_byte:
  assumes "n < 256"
  shows "shiftLeft (real n) 16 = 65536 * int n" and "shiftLeft (real n) 8 = 256 * int n"
proof -
  have t: "truncate (real n) = int n"
    by (simp add: truncate_def)
  have i: "toInt32 (int n) = int n"
    using assms by (intro toInt32_small) simp_all
  show "shiftLeft (real n) 16 = 65536 * int n"
    unfolding shiftLeft_def t i using assms by (simp add: toInt32_small)
  show "shiftLeft (real n) 8 = 256 * int n"
    unfolding shiftLeft_def t i using assms by (simp add: toInt32_small)
qed

lemma natToString16_snoc:
  assumes "d < 16" and "0 < m"
  shows "natToString 16 (16 * m + d) = natToString 16 m @ [digitChar d]"
proof -
  have "16 \<le> 16 * m + d"
    using assms(2) by simp
  moreover have "(16 * m + d) div 16 = m" "(16 * m + d) mod 16 = d"
    using assms(1) by simp_all
  ultimately show ?thesis
    by (simp add: natToString_step)
qed

lemma natToString16_seven:
  assumes "a < 16" "b < 16" "c < 16" "d < 16" "e < 16" "f < 16"
  shows "natToString 16 (2 ^ 24 + (((((a * 16 + b) * 16 + c) * 16 + d) * 16 + e) * 16 + f)) =
    [CHR ''1'', digitChar a, digitChar b, digitChar c, digitChar d, digitChar e, digitChar f]"
proof -
  define n1 where "n1 = 16 * 1 + a"
  define n2 where "n2 = 16 * n1 + b"
  define n3 where "n3 = 16 * n2 + c"
  define n4 where "n4 = 16 * n3 + d"
  define n5 where "n5 = 16 * n4 + e"
  have pos: "0 < n1" "0 < n2" "0 < n3" "0 < n4" "0 < n5"
    by (simp_all add: n1_def n2_def n3_def n4_def n5_def)
  have s0: "natToString 16 1 = ''1''"
    by (simp add: natToString_small digitChar_def)
  have s1: "natToString 16 n1 = natToString 16 1 @ [digitChar a]"
    unfolding n1_def by (rule natToString16_snoc) (use assms in simp_all)
  have s2: "natToString 16 n2 = natToString 16 n1 @ [digitChar b]"
    unfolding n2_def by (rule natToString16_snoc) (use assms pos in simp_all)
  have s3: "natToString 16 n3 = natToString 16 n2 @ [digitChar c]"
    unfolding n3_def by (rule natToString16_snoc) (use assms pos in simp_all)
  have s4: "natToString 16 n4 = natToString 16 n3 @ [digitChar d]"
    unfolding n4_def by (rule natToString16_snoc) (use assms pos in simp_all)
  have s5: "natToString 16 n5 = natToString 16 n4 @ [digitChar e]"
    unfolding n5_def by (rule natToString16_snoc) (use assms pos in simp_all)
  have s6: "natToString 16 (16 * n5 + f) = natToString 16 n5 @ [digitChar f]"
    by (rule natToString16_snoc) (use assms pos in simp_all)
  have eq: "2 ^ 24 + (((((a * 16 + b) * 16 + c) * 16 + d) * 16 + e) * 16 + f) = 16 * n5 + f"
    by (simp add: n1_def n2_def n3_def n4_def n5_def)
  show ?thesis
    unfolding eq s6 s5 s4 s3 s2 s1 s0 by simp
qed


lemma byte_channels:
  fixes r g b :: int
  assumes "0 \<le> r" "r < 256" "0 \<le> g" "g < 256" "0 \<le> b" "b < 256"
  shows "((65536 * r + 256 * g + b) div 65536) mod 256 = r"
    and "((65536 * r + 256 * g + b) div 256) mod 256 = g"
    and "(65536 * r + 256 * g + b) mod 256 = b"
    and "toInt32 (65536 * r + 256 * g + b) = 65536 * r + 256 * g + b"
proof -
  have low: "0 \<le> 256 * g + b" "256 * g + b < 65536"
    using assms by auto
  have "(65536 * r + (256 * g + b)) div 65536 = r + (256 * g + b) div 65536"
    by (rule div_mult_self4) simp
  also have "(256 * g + b) div 65536 = 0"
    using low by (simp add: div_pos_pos_trivial)
  finally show "((65536 * r + 256 * g + b) div 65536) mod 256 = r"
    using assms by (simp add: add.assoc)
  have "(256 * (256 * r + g) + b) div 256 = (256 * r + g) + b div 256"
    by (rule div_mult_self4) simp
  also have "b div 256 = 0"
    using assms by (simp add: div_pos_pos_trivial)
  finally have "(65536 * r + 256 * g + b) div 256 = 256 * r + g"
    by (simp add: algebra_simps)
  moreover have "(256 * r + g) mod 256 = g"
    using assms by simp
  ultimately show "((65536 * r + 256 * g + b) div 256) mod 256 = g"
    by simp
  have "(256 * (256 * r + g) + b) mod 256 = b mod 256"
    by (rule mod_mult_self4)
  then show "(65536 * r + 256 * g + b) mod 256 = b"
    using assms by (simp add: algebra_simps)
  have "0 \<le> 65536 * r + 256 * g + b" "65536 * r + 256 * g + b < 2 ^ 31"
    using assms by auto
  then show "toInt32 (65536 * r + 256 * g + b) = 65536 * r + 256 * g + b"
    by (rule toInt32_small)
qed

lemma parseHexToRgb_canonical:
  assumes "list_all isLowerHexDigit [a, b, c, d, e, f]"
  shows "parseHexToRgb [CHR ''#'', a, b, c, d, e, f] =
    (Some (real (hexDigitVal a * 16 + hexDigitVal b) / 255),
     Some (real (hexDigitVal c * 16 + hexDigitVal d) / 255),
     Some (real (hexDigitVal e * 16 + hexDigitVal f) / 255))"
proof -
  define R where "R = int (hexDigitVal a * 16 + hexDigitVal b)"
  define G where "G = int (hexDigitVal c * 16 + hexDigitVal d)"
  define B where "B = int (hexDigitVal e * 16 + hexDigitVal f)"
  have lt: "hexDigitVal a < 16" "hexDigitVal b < 16" "hexDigitVal c < 16" "hexDigitVal d < 16"
    "hexDigitVal e < 16" "hexDigitVal f < 16"
    using assms by (simp_all add: digit_roundtrip)
  have bounds: "0 \<le> R" "R < 256" "0 \<le> G" "G < 256" "0 \<le> B" "B < 256"
    using lt by (simp_all add: R_def G_def B_def)
  have "parseInt16 [a, b, c, d, e, f] = Some (65536 * R + 256 * G + B)"
    by (simp add: parseInt16_six [OF assms] R_def G_def B_def)
  then have "parseHexToRgb [CHR ''#'', a, b, c, d, e, f] =
      (Some (real_of_int R / 255), Some (real_of_int G / 255), Some (real_of_int B / 255))"
    by (simp add: parseHexToRgb_def startsWith_def byte_channels [OF bounds])
  then show ?thesis
    by (simp add: R_def G_def B_def)
qed

lemma roundN_byte: "roundN (map_option (\<lambda>x. x * 255) (Some (real n / 255))) = natToString 10 n"
  by (simp add: roundN_def intToString_def)

lemma hexToRgb_canonical:
  assumes "list_all isLowerHexDigit [a, b, c, d, e, f]"
  shows "hexToRgb [CHR ''#'', a, b, c, d, e, f] =
    ''rgb('' @ natToString 10 (hexDigitVal a * 16 + hexDigitVal b) @ '', ''
      @ natToString 10 (hexDigitVal c * 16 + hexDigitVal d) @ '', ''
      @ natToString 10 (hexDigitVal e * 16 + hexDigitVal f) @ '')''"
  by (simp only: hexToRgb_def parseHexToRgb_canonical [OF assms] prod.case roundN_byte)

lemma rgbToHexNum_bytes:
  assumes "r < 256" "g < 256" "b < 256"
  shows "rgbToHexNum (real r) (real g) (real b) =
    Inr (CHR ''#'' # drop 1 (natToString 16 (2 ^ 24 + ((r * 256 + g) * 256 + b))))"
proof -
  define N where "N = 2 ^ 24 + ((r * 256 + g) * 256 + b)"
  have "real_of_int (2 ^ 24 + shiftLeft (real r) 16 + shiftLeft (real g) 8) + real b =
      real_of_int (int N)"
    by (simp add: shiftLeft_byte assms N_def)
  then have "rgbToHexNum (real r) (real g) (real b) = Inr (CHR ''#'' # drop 1 (natToString 16 N))"
    unfolding rgbToHexNum_def Let_def by (simp add: intToString_def)
  then show ?thesis
    by (simp only: N_def)
qed


subsection \<open>The round trip\<close>

lemma canonicalHex_cases:
  assumes "canonicalHex H"
  obtains a b c d e f where "H = [CHR ''#'', a, b, c, d, e, f]"
    and "list_all isLowerHexDigit [a, b, c, d, e, f]"
proof -
  obtain ds where H: "H = CHR ''#'' # ds" and len: "length ds = 6"
    and low: "list_all isLowerHexDigit ds"
    using assms by (auto simp: canonicalHex_def split: list.splits)
  obtain a b c d e f where "ds = [a, b, c, d, e, f]"
    using length6 [OF len] by blast
  then show ?thesis
    using H low that by simp
qed

lemma toHex_rgb_string:
  assumes "ys \<noteq> []" and "last ys = CHR '')''"
  shows "toHex (Str (''rgb('' @ ys)) = map_sum id Str (rgbToHex (''rgb('' @ ys))"
proof -
  have "trim (''rgb('' @ ys) = ''rgb('' @ ys"
    using assms by (intro trim_unchanged) (simp_all add: isWhiteSpace_def)
  then show ?thesis
    by (simp add: toHex_def startsWith_def)
qed

lemma rgbToHex_canonical:
  assumes "list_all isLowerHexDigit [a, b, c, d, e, f]"
  shows "rgbToHex (hexToRgb [CHR ''#'', a, b, c, d, e, f]) = Inr [CHR ''#'', a, b, c, d, e, f]"
proof -
  define R where "R = hexDigitVal a * 16 + hexDigitVal b"
  define G where "G = hexDigitVal c * 16 + hexDigitVal d"
  define B where "B = hexDigitVal e * 16 + hexDigitVal f"
  have dig: "hexDigitVal a < 16" "hexDigitVal b < 16" "hexDigitVal c < 16" "hexDigitVal d < 16"
    "hexDigitVal e < 16" "hexDigitVal f < 16"
    and inv: "digitChar (hexDigitVal a) = a" "digitChar (hexDigitVal b) = b"
    "digitChar (hexDigitVal c) = c" "digitChar (hexDigitVal d) = d"
    "digitChar (hexDigitVal e) = e" "digitChar (hexDigitVal f) = f"
    using assms by (simp_all add: digit_roundtrip)
  have bytes: "R < 256" "G < 256" "B < 256"
    using dig by (simp_all add: R_def G_def B_def)
  have str: "hexToRgb [CHR ''#'', a, b, c, d, e, f] =
      ''rgb('' @ natToString 10 R @ '', '' @ natToString 10 G @ '', '' @ natToString 10 B @ '')''"
    unfolding R_def G_def B_def by (rule hexToRgb_canonical [OF assms])
  have "rgbToHex (hexToRgb [CHR ''#'', a, b, c, d, e, f]) = rgbToHexNum (real R) (real G) (real B)"
    unfolding rgbToHex_def str rgb_tokens by simp
  also have "\<dots> = Inr (CHR ''#'' # drop 1 (natToString 16 (2 ^ 24 + ((R * 256 + G) * 256 + B))))"
    by (rule rgbToHexNum_bytes [OF bytes])
  also have "(R * 256 + G) * 256 + B =
      ((((hexDigitVal a * 16 + hexDigitVal b) * 16 + hexDigitVal c) * 16 + hexDigitVal d) * 16
        + hexDigitVal e) * 16 + hexDigitVal f"
    by (simp add: R_def G_def B_def)
  finally show ?thesis
    unfolding natToString16_seven [OF dig] inv by simp
qed

text \<open>
  Claim C2. For every canonical hex string \<open>H\<close> (a \<^verbatim>\<open>#\<close> and six lowercase hex digits),
  \<^verbatim>\<open>toHex(hexTo(H, "rgb"))\<close> is \<open>H\<close>.
\<close>

theorem rgb_round_trip:
  assumes "canonicalHex H"
  shows "toHex_hexTo c H ''rgb'' = Inr (Str H)"
proof -
  obtain a b c' d e f where H: "H = [CHR ''#'', a, b, c', d, e, f]"
    and low: "list_all isLowerHexDigit [a, b, c', d, e, f]"
    using assms by (rule canonicalHex_cases)
  have lower: "toLowerCase ''rgb'' = ''rgb''"
    by (simp add: toLowerCase_def lowerChar_def)
  have there: "fst (hexTo c (Str H) (Str ''rgb'')) = Inr (Str (hexToRgb H))"
    by (simp add: hexTo_def truthy_def lower onString_def H)
  have "toHex (Str (hexToRgb H)) = map_sum id Str (rgbToHex (hexToRgb H))"
    unfolding H hexToRgb_canonical [OF low] by (rule toHex_rgb_string) simp_all
  also have "\<dots> = Inr (Str H)"
    by (simp add: H rgbToHex_canonical [OF low])
  finally show ?thesis
    by (simp add: toHex_hexTo_def there)
qed

theorem rgb_round_trip_witness:
  "canonicalHex ''#336699'' \<and> toHex_hexTo None ''#336699'' ''rgb'' = Inr (Str ''#336699'')"
proof -
  have h: "canonicalHex ''#336699''"
    by (simp add: canonicalHex_def isLowerHexDigit_def)
  show ?thesis
    using h rgb_round_trip [OF h] by simp
qed

section \<open>Numbers read by the pattern\<close>

lemma numberToken_cases:
  assumes "numberToken t"
  obtains (whole) "t \<noteq> []" "list_all isDigit t"
    | (fraction) ds fs where "t = ds @ CHR ''.'' # fs" "ds \<noteq> []" "list_all isDigit ds"
        "fs \<noteq> []" "list_all isDigit fs"
proof (cases "dropWhile isDigit t")
  case Nil
  then have "takeWhile isDigit t = t"
    by (metis append_Nil2 takeWhile_dropWhile_id)
  then have "list_all isDigit t" "t \<noteq> []"
    using assms by (auto simp: numberToken_def Let_def list_all_iff dest: set_takeWhileD)
  then show ?thesis
    using whole by blast
next
  case (Cons c fs)
  then have c: "c = CHR ''.''" and fs: "fs \<noteq> []" "list_all isDigit fs"
    and w: "takeWhile isDigit t \<noteq> []"
    using assms by (simp_all add: numberToken_def Let_def)
  have "t = takeWhile isDigit t @ CHR ''.'' # fs"
    using Cons c by (metis takeWhile_dropWhile_id)
  moreover have "list_all isDigit (takeWhile isDigit t)"
    by (auto simp: list_all_iff dest: set_takeWhileD)
  ultimately show ?thesis
    using fraction w fs by blast
qed

lemma matchNumbers_fraction:
  assumes "ds \<noteq> []" and "list_all isDigit ds" and "fs \<noteq> []" and "list_all isDigit fs"
    and "\<not> isDigit c"
  shows "matchNumbers (ds @ CHR ''.'' # fs @ c # cs) = (ds @ CHR ''.'' # fs) # matchNumbers cs"
proof -
  obtain x xs where ds: "ds = x # xs"
    using assms(1) by (cases ds) auto
  obtain e es where fs: "fs = e # es"
    using assms(3) by (cases fs) auto
  have x: "isDigit x" and xs: "\<forall>y\<in>set xs. isDigit y"
    using assms(2) by (simp_all add: ds list_all_iff)
  have e: "isDigit e" and es: "\<forall>y\<in>set es. isDigit y"
    using assms(4) by (simp_all add: fs list_all_iff)
  have point: "\<not> isDigit CHR ''.''"
    by (simp add: isDigit_def)
  have tw: "takeWhile isDigit (xs @ CHR ''.'' # e # es @ c # cs) = xs"
    using xs point by (simp add: takeWhile_append2)
  have dw: "dropWhile isDigit (xs @ CHR ''.'' # e # es @ c # cs) = CHR ''.'' # e # es @ c # cs"
    using xs point by (simp add: dropWhile_append2)
  have tw': "takeWhile isDigit (es @ c # cs) = es"
    using es assms(5) by (simp add: takeWhile_append2)
  have dw': "dropWhile isDigit (es @ c # cs) = c # cs"
    using es assms(5) by (simp add: dropWhile_append2)
  have "matchNumbers (x # xs @ CHR ''.'' # e # es @ c # cs) =
      (x # xs @ CHR ''.'' # e # es) # matchNumbers (c # cs)"
    using x e by (simp add: matchNumbers.simps(2) [of x] tw dw tw' dw')
  then show ?thesis
    using assms(5) by (simp add: ds fs matchNumbers_skip)
qed

lemma matchNumbers_token:
  assumes "numberToken t" and "\<not> isDigit c" and "c \<noteq> CHR ''.''"
  shows "matchNumbers (t @ c # cs) = t # matchNumbers cs"
  using assms(1)
proof (cases rule: numberToken_cases)
  case whole
  then show ?thesis
    using assms(2,3) by (simp add: matchNumbers_digits)
next
  case (fraction ds fs)
  then show ?thesis
    using assms(2) matchNumbers_fraction [of ds fs c cs] by simp
qed

text \<open>
  Claim C8. The parser of \<open>oklchToHex\<close> reads a lightness written with a percent sign
  exactly as the same number written bare: the sign is dropped with the other characters
  that are no digits, the number is not divided by 100, and the result is the same. On
  \<^verbatim>\<open>oklch(60% 0.15 180)\<close> the numbers read are 60, 0.15 and 180.
\<close>

theorem oklch_percent_sign_dropped:
  assumes "numberToken t"
  shows "matchNumbers (''oklch('' @ t @ ''% '' @ rest) = t # matchNumbers rest \<and>
    matchNumbers (''oklch('' @ t @ '' '' @ rest) = t # matchNumbers rest \<and>
    oklchToHex (''oklch('' @ t @ ''% '' @ rest) = oklchToHex (''oklch('' @ t @ '' '' @ rest) \<and>
    oklchToHex (''oklch('' @ t @ ''% '' @ rest) =
      (case map Number (matchNumbers rest) of
         c # h # _ \<Rightarrow> Inr (oklchToHexNum (Number t) c h)
       | _ \<Rightarrow> Inr ''#NaNNaNNaN'')"
proof -
  have nd: "\<not> isDigit CHR ''o''" "\<not> isDigit CHR ''k''" "\<not> isDigit CHR ''l''" "\<not> isDigit CHR ''c''"
    "\<not> isDigit CHR ''h''" "\<not> isDigit CHR ''(''" "\<not> isDigit CHR ''%''" "\<not> isDigit CHR '' ''"
    by (simp_all add: isDigit_def)
  have "matchNumbers (''oklch('' @ t @ ''% '' @ rest) = t # matchNumbers rest"
    using matchNumbers_token [OF assms nd(7), of "CHR '' '' # rest"]
    by (simp add: matchNumbers_skip nd)
  moreover have "matchNumbers (''oklch('' @ t @ '' '' @ rest) = t # matchNumbers rest"
    using matchNumbers_token [OF assms nd(8), of rest]
    by (simp add: matchNumbers_skip nd)
  ultimately show ?thesis
    by (simp add: oklchToHex_def split: list.splits)
qed

theorem oklch_percent_sign_dropped_witness:
  "numberToken ''60'' \<and>
   map Number (matchNumbers ''oklch(60% 0.15 180)'') = [60, 15 / 100, 180] \<and>
   oklchToHex ''oklch(60% 0.15 180)'' = Inr (oklchToHexNum 60 (15 / 100) 180) \<and>
   oklchToHex ''oklch(60% 0.15 180)'' = oklchToHex ''oklch(60 0.15 180)''"
proof -
  have h: "numberToken ''60''"
    by (simp add: numberToken_def isDigit_def)
  have rest: "map Number (matchNumbers ''0.15 180)'') = [15 / 100, 180]"
    by (simp add: number_defs)
  have sixty: "Number ''60'' = 60"
    by (simp add: number_defs)
  note general = oklch_percent_sign_dropped [OF h, of "''0.15 180)''"]
  have tokens: "matchNumbers ''oklch(60% 0.15 180)'' = ''60'' # matchNumbers ''0.15 180)''"
    using general by simp
  have same: "oklchToHex ''oklch(60% 0.15 180)'' = oklchToHex ''oklch(60 0.15 180)''"
    using general by simp
  have numbers: "map Number (matchNumbers ''oklch(60% 0.15 180)'') = [60, 15 / 100, 180]"
    unfolding tokens using rest sixty by simp
  have "oklchToHex ''oklch(60% 0.15 180)'' = Inr (oklchToHexNum 60 (15 / 100) 180)"
    using general [THEN conjunct2, THEN conjunct2, THEN conjunct2] unfolding rest sixty by simp
  then show ?thesis
    using h numbers same by blast
qed

section \<open>Round trip through \<open>hsl\<close> notation\<close>

subsection \<open>The channel formula inverts \<open>hslOf\<close>\<close>

lemma hslToHexNum_channels:
  "hslToHexNum h s l =
    CHR ''#'' # toDoubleHex (hslChannel h s l 0) @ toDoubleHex (hslChannel h s l 8)
      @ toDoubleHex (hslChannel h s l 4)"
  by (simp add: hslToHexNum_def hslChannel_def Let_def)

lemma jsmod_12_small: "0 \<le> x \<Longrightarrow> x < 12 \<Longrightarrow> jsmod x 12 = x"
proof -
  assume "0 \<le> x" "x < 12"
  then have "\<lfloor>x / 12\<rfloor> = 0"
    by (simp add: floor_eq_iff)
  then show ?thesis
    using \<open>0 \<le> x\<close> by (simp add: jsmod_def truncate_def)
qed

lemma jsmod_12_wrap: "12 \<le> x \<Longrightarrow> x < 24 \<Longrightarrow> jsmod x 12 = x - 12"
proof -
  assume "12 \<le> x" "x < 24"
  then have "\<lfloor>x / 12\<rfloor> = 1"
    by (simp add: floor_eq_iff)
  then show ?thesis
    using \<open>12 \<le> x\<close> by (simp add: jsmod_def truncate_def)
qed

lemma tri_sectors:
  assumes "0 \<le> t" "t < 12"
  shows "t \<le> 2 \<Longrightarrow> tri (jsmod (0 + t) 12) = - 1 \<and> tri (jsmod (8 + t) 12) = 1 - t \<and> tri (jsmod (4 + t) 12) = 1"
    and "2 \<le> t \<Longrightarrow> t \<le> 4 \<Longrightarrow> tri (jsmod (0 + t) 12) = t - 3 \<and> tri (jsmod (8 + t) 12) = - 1 \<and> tri (jsmod (4 + t) 12) = 1"
    and "4 \<le> t \<Longrightarrow> t \<le> 6 \<Longrightarrow> tri (jsmod (0 + t) 12) = 1 \<and> tri (jsmod (8 + t) 12) = - 1 \<and> tri (jsmod (4 + t) 12) = 5 - t"
    and "6 \<le> t \<Longrightarrow> t \<le> 8 \<Longrightarrow> tri (jsmod (0 + t) 12) = 1 \<and> tri (jsmod (8 + t) 12) = t - 7 \<and> tri (jsmod (4 + t) 12) = - 1"
    and "8 \<le> t \<Longrightarrow> t \<le> 10 \<Longrightarrow> tri (jsmod (0 + t) 12) = 9 - t \<and> tri (jsmod (8 + t) 12) = 1 \<and> tri (jsmod (4 + t) 12) = - 1"
    and "10 \<le> t \<Longrightarrow> tri (jsmod (0 + t) 12) = - 1 \<and> tri (jsmod (8 + t) 12) = 1 \<and> tri (jsmod (4 + t) 12) = t - 11"
proof -
  have k0: "jsmod (0 + t) 12 = t"
    using assms by (simp add: jsmod_12_small)
  have k8: "jsmod (8 + t) 12 = (if t < 4 then 8 + t else t - 4)"
    using assms by (simp add: jsmod_12_small jsmod_12_wrap)
  have k4: "jsmod (4 + t) 12 = (if t < 8 then 4 + t else t - 8)"
    using assms by (simp add: jsmod_12_small jsmod_12_wrap)
  show "t \<le> 2 \<Longrightarrow> tri (jsmod (0 + t) 12) = - 1 \<and> tri (jsmod (8 + t) 12) = 1 - t \<and> tri (jsmod (4 + t) 12) = 1"
    unfolding k0 k8 k4 tri_def using assms by auto
  show "2 \<le> t \<Longrightarrow> t \<le> 4 \<Longrightarrow> tri (jsmod (0 + t) 12) = t - 3 \<and> tri (jsmod (8 + t) 12) = - 1 \<and> tri (jsmod (4 + t) 12) = 1"
    unfolding k0 k8 k4 tri_def using assms by auto
  show "4 \<le> t \<Longrightarrow> t \<le> 6 \<Longrightarrow> tri (jsmod (0 + t) 12) = 1 \<and> tri (jsmod (8 + t) 12) = - 1 \<and> tri (jsmod (4 + t) 12) = 5 - t"
    unfolding k0 k8 k4 tri_def using assms by auto
  show "6 \<le> t \<Longrightarrow> t \<le> 8 \<Longrightarrow> tri (jsmod (0 + t) 12) = 1 \<and> tri (jsmod (8 + t) 12) = t - 7 \<and> tri (jsmod (4 + t) 12) = - 1"
    unfolding k0 k8 k4 tri_def using assms by auto
  show "8 \<le> t \<Longrightarrow> t \<le> 10 \<Longrightarrow> tri (jsmod (0 + t) 12) = 9 - t \<and> tri (jsmod (8 + t) 12) = 1 \<and> tri (jsmod (4 + t) 12) = - 1"
    unfolding k0 k8 k4 tri_def using assms by auto
  show "10 \<le> t \<Longrightarrow> tri (jsmod (0 + t) 12) = - 1 \<and> tri (jsmod (8 + t) 12) = 1 \<and> tri (jsmod (4 + t) 12) = t - 11"
    unfolding k0 k8 k4 tri_def using assms by auto
qed


lemma hslChannel_tri:
  "hslChannel h s l n = l / 100 - s / 100 * min (l / 100) (1 - l / 100) * tri (jsmod (n + h / 30) 12)"
  by (simp add: hslChannel_def tri_def Let_def)

lemma hsl_gray:
  fixes r :: real
  shows "hslOf r r r = (0, 0, r)" and "hslChannel (0 * 360) (0 * 100) (r * 100) n = r"
  by (simp_all add: hslOf_def hslChannel_tri)

lemma hsl_inverse_coloured:
  fixes r g b :: real
  assumes range: "0 \<le> r" "r \<le> 1" "0 \<le> g" "g \<le> 1" "0 \<le> b" "b \<le> 1"
    and colour: "max r (max g b) \<noteq> min r (min g b)"
    and hsl: "hslOf r g b = (h, s, l)"
  shows "hslChannel (h * 360) (s * 100) (l * 100) 0 = r"
    and "hslChannel (h * 360) (s * 100) (l * 100) 8 = g"
    and "hslChannel (h * 360) (s * 100) (l * 100) 4 = b"
    and "0 \<le> h" and "0 \<le> s" and "0 \<le> l"
proof -
  define M where "M = max r (max g b)"
  define m where "m = min r (min g b)"
  define d where "d = M - m"
  define t where "t = 12 * h"
  have Mm: "m \<le> r" "m \<le> g" "m \<le> b" "r \<le> M" "g \<le> M" "b \<le> M" "0 \<le> m" "M \<le> 1"
    using range by (simp_all add: M_def m_def)
  have d: "0 < d"
    using colour Mm unfolding d_def M_def [symmetric] m_def [symmetric] by linarith
  have "hslOf r g b =
      (hueOf r g b, (if (M + m) / 2 > 0.5 then d / (2 - M - m) else d / (M + m)), (M + m) / 2)"
    using colour by (simp add: hslOf_def Let_def M_def m_def d_def)
  then have h: "h = hueOf r g b"
    and s0: "s = (if (M + m) / 2 > 0.5 then d / (2 - M - m) else d / (M + m))"
    and l: "l = (M + m) / 2"
    using hsl by simp_all
  have s: "s = (if l > 0.5 then d / (2 - M - m) else d / (M + m))"
    unfolding l by (rule s0)
  have a: "s * min l (1 - l) = d / 2"
  proof (cases "l > 0.5")
    case True
    then have "0 < 2 - M - m"
      using d Mm unfolding d_def by linarith
    then show ?thesis
      using True by (simp add: s l min_def field_simps)
  next
    case False
    then have "0 < M + m"
      using d Mm unfolding d_def by linarith
    then show ?thesis
      using False by (simp add: s l min_def field_simps)
  qed
  have chan: "hslChannel (h * 360) (s * 100) (l * 100) n = l - d / 2 * tri (jsmod (n + t) 12)" for n
    using a by (simp add: hslChannel_tri t_def)
  have Md: "M = m + d"
    by (simp add: d_def)
  have l': "l = m + d / 2"
    unfolding l Md by (simp add: field_simps)
  show "0 \<le> l"
    using Mm by (simp add: l)
  show "0 \<le> s"
  proof (cases "l > 0.5")
    case True
    then have "0 < 2 - M - m"
      using d Mm unfolding d_def by linarith
    then show ?thesis
      using True d by (simp add: s)
  next
    case False
    then have "0 < M + m"
      using d Mm unfolding d_def by linarith
    then show ?thesis
      using False d by (simp add: s)
  qed
  consider (A) "g \<le> r" "b \<le> r" "b \<le> g" | (B) "g \<le> r" "b \<le> r" "g < b"
    | (C1) "r < g" "b \<le> g" "b < r" | (C2) "r < g" "b \<le> g" "r \<le> b"
    | (D1) "r < b" "g < b" "r < g" | (D2) "r < b" "g < b" "g \<le> r"
    by linarith
  then have "hslChannel (h * 360) (s * 100) (l * 100) 0 = r \<and>
      hslChannel (h * 360) (s * 100) (l * 100) 8 = g \<and>
      hslChannel (h * 360) (s * 100) (l * 100) 4 = b \<and> 0 \<le> h"
  proof cases
    case A
    have M: "M = r" and m: "m = b"
      using A by (simp_all add: M_def m_def max_def min_def)
    define q where "q = (g - b) / d"
    have dq: "d * q = g - b"
      using d by (simp add: q_def)
    have "h = (g - b) / d / 6"
      using A unfolding h hueOf_def Let_def M_def [symmetric] m_def [symmetric] d_def [symmetric]
      by (simp add: M)
    then have t: "t = 2 * q"
      using d by (simp add: t_def q_def field_simps)
    have "0 \<le> g - b" "g - b \<le> d"
      using A by (simp_all add: d_def M m)
    then have qb: "0 \<le> q" "q \<le> 1"
      using d by (simp_all add: q_def field_simps)
    have tb: "0 \<le> t" "t < 12"
      using qb by (simp_all add: t)
    moreover have "t \<le> 2"
      using qb by (simp_all add: t)
    ultimately have "tri (jsmod (0 + t) 12) = - 1 \<and> tri (jsmod (8 + t) 12) = 1 - t \<and> tri (jsmod (4 + t) 12) = 1"
      by (intro tri_sectors(1))
    then have T: "tri (jsmod (0 + t) 12) = - 1" "tri (jsmod (8 + t) 12) = 1 - t" "tri (jsmod (4 + t) 12) = 1"
      by simp_all
    have vals: "r = m + d" "g = m + d * q" "b = m"
      using dq M m Md by linarith+
    have "0 \<le> h"
      using tb by (simp add: t_def)
    then show ?thesis
      unfolding chan T unfolding l' t using vals by (simp add: algebra_simps)
  next
    case B
    have M: "M = r" and m: "m = g"
      using B by (simp_all add: M_def m_def max_def min_def)
    define q where "q = (g - b) / d"
    have dq: "d * q = g - b"
      using d by (simp add: q_def)
    have "h = ((g - b) / d + 6) / 6"
      using B unfolding h hueOf_def Let_def M_def [symmetric] m_def [symmetric] d_def [symmetric]
      by (simp add: M)
    then have t: "t = 2 * (q + 6)"
      using d by (simp add: t_def q_def field_simps)
    have "- d \<le> g - b" "g - b < 0"
      using B by (simp_all add: d_def M m)
    then have qb: "- 1 \<le> q" "q < 0"
      using d by (simp_all add: q_def field_simps)
    have tb: "0 \<le> t" "t < 12"
      using qb by (simp_all add: t)
    moreover have "10 \<le> t"
      using qb by (simp_all add: t)
    ultimately have "tri (jsmod (0 + t) 12) = - 1 \<and> tri (jsmod (8 + t) 12) = 1 \<and> tri (jsmod (4 + t) 12) = t - 11"
      by (intro tri_sectors(6))
    then have T: "tri (jsmod (0 + t) 12) = - 1" "tri (jsmod (8 + t) 12) = 1" "tri (jsmod (4 + t) 12) = t - 11"
      by simp_all
    have vals: "r = m + d" "g = m" "b = m - d * q"
      using dq M m Md by linarith+
    have "0 \<le> h"
      using tb by (simp add: t_def)
    then show ?thesis
      unfolding chan T unfolding l' t using vals by (simp add: algebra_simps)
  next
    case C1
    have M: "M = g" and m: "m = b"
      using C1 by (simp_all add: M_def m_def max_def min_def)
    define q where "q = (b - r) / d"
    have dq: "d * q = b - r"
      using d by (simp add: q_def)
    have "h = ((b - r) / d + 2) / 6"
      using C1 unfolding h hueOf_def Let_def M_def [symmetric] m_def [symmetric] d_def [symmetric]
      by (simp add: M)
    then have t: "t = 2 * (q + 2)"
      using d by (simp add: t_def q_def field_simps)
    have "- d \<le> b - r" "b - r < 0"
      using C1 by (simp_all add: d_def M m)
    then have qb: "- 1 \<le> q" "q < 0"
      using d by (simp_all add: q_def field_simps)
    have tb: "0 \<le> t" "t < 12"
      using qb by (simp_all add: t)
    moreover have "2 \<le> t" "t \<le> 4"
      using qb by (simp_all add: t)
    ultimately have "tri (jsmod (0 + t) 12) = t - 3 \<and> tri (jsmod (8 + t) 12) = - 1 \<and> tri (jsmod (4 + t) 12) = 1"
      by (intro tri_sectors(2))
    then have T: "tri (jsmod (0 + t) 12) = t - 3" "tri (jsmod (8 + t) 12) = - 1" "tri (jsmod (4 + t) 12) = 1"
      by simp_all
    have vals: "r = m - d * q" "g = m + d" "b = m"
      using dq M m Md by linarith+
    have "0 \<le> h"
      using tb by (simp add: t_def)
    then show ?thesis
      unfolding chan T unfolding l' t using vals by (simp add: algebra_simps)
  next
    case C2
    have M: "M = g" and m: "m = r"
      using C2 by (simp_all add: M_def m_def max_def min_def)
    define q where "q = (b - r) / d"
    have dq: "d * q = b - r"
      using d by (simp add: q_def)
    have "h = ((b - r) / d + 2) / 6"
      using C2 unfolding h hueOf_def Let_def M_def [symmetric] m_def [symmetric] d_def [symmetric]
      by (simp add: M)
    then have t: "t = 2 * (q + 2)"
      using d by (simp add: t_def q_def field_simps)
    have "0 \<le> b - r" "b - r \<le> d"
      using C2 by (simp_all add: d_def M m)
    then have qb: "0 \<le> q" "q \<le> 1"
      using d by (simp_all add: q_def field_simps)
    have tb: "0 \<le> t" "t < 12"
      using qb by (simp_all add: t)
    moreover have "4 \<le> t" "t \<le> 6"
      using qb by (simp_all add: t)
    ultimately have "tri (jsmod (0 + t) 12) = 1 \<and> tri (jsmod (8 + t) 12) = - 1 \<and> tri (jsmod (4 + t) 12) = 5 - t"
      by (intro tri_sectors(3))
    then have T: "tri (jsmod (0 + t) 12) = 1" "tri (jsmod (8 + t) 12) = - 1" "tri (jsmod (4 + t) 12) = 5 - t"
      by simp_all
    have vals: "r = m" "g = m + d" "b = m + d * q"
      using dq M m Md by linarith+
    have "0 \<le> h"
      using tb by (simp add: t_def)
    then show ?thesis
      unfolding chan T unfolding l' t using vals by (simp add: algebra_simps)
  next
    case D1
    have M: "M = b" and m: "m = r"
      using D1 by (simp_all add: M_def m_def max_def min_def)
    define q where "q = (r - g) / d"
    have dq: "d * q = r - g"
      using d by (simp add: q_def)
    have "h = ((r - g) / d + 4) / 6"
      using D1 unfolding h hueOf_def Let_def M_def [symmetric] m_def [symmetric] d_def [symmetric]
      by (simp add: M)
    then have t: "t = 2 * (q + 4)"
      using d by (simp add: t_def q_def field_simps)
    have "- d \<le> r - g" "r - g < 0"
      using D1 by (simp_all add: d_def M m)
    then have qb: "- 1 \<le> q" "q < 0"
      using d by (simp_all add: q_def field_simps)
    have tb: "0 \<le> t" "t < 12"
      using qb by (simp_all add: t)
    moreover have "6 \<le> t" "t \<le> 8"
      using qb by (simp_all add: t)
    ultimately have "tri (jsmod (0 + t) 12) = 1 \<and> tri (jsmod (8 + t) 12) = t - 7 \<and> tri (jsmod (4 + t) 12) = - 1"
      by (intro tri_sectors(4))
    then have T: "tri (jsmod (0 + t) 12) = 1" "tri (jsmod (8 + t) 12) = t - 7" "tri (jsmod (4 + t) 12) = - 1"
      by simp_all
    have vals: "r = m" "g = m - d * q" "b = m + d"
      using dq M m Md by linarith+
    have "0 \<le> h"
      using tb by (simp add: t_def)
    then show ?thesis
      unfolding chan T unfolding l' t using vals by (simp add: algebra_simps)
  next
    case D2
    have M: "M = b" and m: "m = g"
      using D2 by (simp_all add: M_def m_def max_def min_def)
    define q where "q = (r - g) / d"
    have dq: "d * q = r - g"
      using d by (simp add: q_def)
    have "h = ((r - g) / d + 4) / 6"
      using D2 unfolding h hueOf_def Let_def M_def [symmetric] m_def [symmetric] d_def [symmetric]
      by (simp add: M)
    then have t: "t = 2 * (q + 4)"
      using d by (simp add: t_def q_def field_simps)
    have "0 \<le> r - g" "r - g \<le> d"
      using D2 by (simp_all add: d_def M m)
    then have qb: "0 \<le> q" "q \<le> 1"
      using d by (simp_all add: q_def field_simps)
    have tb: "0 \<le> t" "t < 12"
      using qb by (simp_all add: t)
    moreover have "8 \<le> t" "t \<le> 10"
      using qb by (simp_all add: t)
    ultimately have "tri (jsmod (0 + t) 12) = 9 - t \<and> tri (jsmod (8 + t) 12) = 1 \<and> tri (jsmod (4 + t) 12) = - 1"
      by (intro tri_sectors(5))
    then have T: "tri (jsmod (0 + t) 12) = 9 - t" "tri (jsmod (8 + t) 12) = 1" "tri (jsmod (4 + t) 12) = - 1"
      by simp_all
    have vals: "r = m + d * q" "g = m" "b = m + d"
      using dq M m Md by linarith+
    have "0 \<le> h"
      using tb by (simp add: t_def)
    then show ?thesis
      unfolding chan T unfolding l' t using vals by (simp add: algebra_simps)
  qed
  then show "hslChannel (h * 360) (s * 100) (l * 100) 0 = r"
    and "hslChannel (h * 360) (s * 100) (l * 100) 8 = g"
    and "hslChannel (h * 360) (s * 100) (l * 100) 4 = b"
    and "0 \<le> h"
    by simp_all
qed

lemma hsl_inverse:
  fixes r g b :: real
  assumes range: "0 \<le> r" "r \<le> 1" "0 \<le> g" "g \<le> 1" "0 \<le> b" "b \<le> 1"
    and hsl: "hslOf r g b = (h, s, l)"
  shows "hslChannel (h * 360) (s * 100) (l * 100) 0 = r"
    and "hslChannel (h * 360) (s * 100) (l * 100) 8 = g"
    and "hslChannel (h * 360) (s * 100) (l * 100) 4 = b"
    and "0 \<le> h" and "0 \<le> s" and "0 \<le> l"
proof -
  have "hslChannel (h * 360) (s * 100) (l * 100) 0 = r \<and>
      hslChannel (h * 360) (s * 100) (l * 100) 8 = g \<and>
      hslChannel (h * 360) (s * 100) (l * 100) 4 = b \<and> 0 \<le> h \<and> 0 \<le> s \<and> 0 \<le> l"
  proof (cases "max r (max g b) = min r (min g b)")
    case True
    then have "g = r" "b = r"
      by linarith+
    then show ?thesis
      using hsl range hsl_gray [of r] by auto
  next
    case False
    then show ?thesis
      using hsl_inverse_coloured [OF range False hsl] by simp
  qed
  then show "hslChannel (h * 360) (s * 100) (l * 100) 0 = r"
    and "hslChannel (h * 360) (s * 100) (l * 100) 8 = g"
    and "hslChannel (h * 360) (s * 100) (l * 100) 4 = b"
    and "0 \<le> h" and "0 \<le> s" and "0 \<le> l"
    by simp_all
qed

subsection \<open>Printing and reading the \<open>hsl\<close> string\<close>

lemma toDoubleHex_nat: "toDoubleHex (real n / 255) = padStart 2 (CHR ''0'') (natToString 16 n)"
  by (simp add: toDoubleHex_def intToString_def)

lemma toDoubleHex_byte:
  assumes "a < 16" "b < 16"
  shows "toDoubleHex (real (a * 16 + b) / 255) = [digitChar a, digitChar b]"
proof (cases "a = 0")
  case True
  then have "natToString 16 (a * 16 + b) = [digitChar b]"
    using assms by (simp add: natToString_small)
  then show ?thesis
    unfolding toDoubleHex_nat using True by (simp add: padStart_def digitChar_def)
next
  case False
  then have "natToString 16 (16 * a + b) = natToString 16 a @ [digitChar b]"
    using assms by (intro natToString16_snoc) simp_all
  then have "natToString 16 (a * 16 + b) = [digitChar a, digitChar b]"
    using assms by (simp add: natToString_small mult.commute)
  then show ?thesis
    unfolding toDoubleHex_nat by (simp add: padStart_def)
qed

lemma exact_round:
  fixes x :: real
  assumes "0 \<le> x" and "frac x = 0"
  shows "intToString 10 (round x) = natToString 10 (nat (round x))" and "real (nat (round x)) = x"
proof -
  have "x \<in> \<int>"
    using assms(2) by (simp add: frac_eq_0_iff)
  then obtain z where z: "x = of_int z"
    by (auto elim: Ints_cases)
  then have "0 \<le> z"
    using assms(1) by simp
  then show "intToString 10 (round x) = natToString 10 (nat (round x))"
    and "real (nat (round x)) = x"
    by (simp_all add: z intToString_def)
qed


lemma hsl_tokens:
  "map Number (matchNumbers (''hsl('' @ natToString 10 x @ '', '' @ natToString 10 y @ ''%, ''
      @ natToString 10 z @ ''%)'')) = [real x, real y, real z]"
proof -
  have nd: "\<not> isDigit CHR ''h''" "\<not> isDigit CHR ''s''" "\<not> isDigit CHR ''l''" "\<not> isDigit CHR ''(''"
    "\<not> isDigit CHR '',''" "\<not> isDigit CHR '' ''" "\<not> isDigit CHR ''%''" "\<not> isDigit CHR '')''"
    by (simp_all add: isDigit_def)
  have tok: "matchNumbers (natToString 10 n @ c # cs) = natToString 10 n # matchNumbers cs"
    if "\<not> isDigit c" "c \<noteq> CHR ''.''" for n c cs
    using that natToString_digits [of n] by (intro matchNumbers_digits) simp_all
  have "matchNumbers (''hsl('' @ natToString 10 x @ '', '' @ natToString 10 y @ ''%, ''
      @ natToString 10 z @ ''%)'') = [natToString 10 x, natToString 10 y, natToString 10 z]"
    by (simp add: matchNumbers_skip nd tok matchNumbers.simps(1))
  then show ?thesis
    by (simp add: Number_natToString)
qed

lemma toHex_hsl_string:
  assumes "ys \<noteq> []" and "last ys = CHR '')''"
  shows "toHex (Str (''hsl('' @ ys)) = map_sum id Str (hslToHex (''hsl('' @ ys))"
proof -
  have "trim (''hsl('' @ ys) = ''hsl('' @ ys"
    using assms by (intro trim_unchanged) (simp_all add: isWhiteSpace_def)
  then show ?thesis
    by (simp add: toHex_def startsWith_def)
qed

lemma digitChar_lower_hex: "d < 16 \<Longrightarrow> isLowerHexDigit (digitChar d)"
proof -
  assume "d < 16"
  then have "d \<in> set [0..<16]" by simp
  also have "[0..<16] = [0, 1, 2, 3, 4, 5, 6, 7, 8, 9, 10, 11, 12, 13, 14, 15 :: nat]"
    by (simp add: upt_rec)
  finally show ?thesis
    by (auto simp: digitChar_def isLowerHexDigit_def)
qed

lemma toDoubleHex_unit:
  assumes "0 \<le> v" and "v \<le> 1"
  obtains a b where "a < 16" and "b < 16" and "toDoubleHex v = [digitChar a, digitChar b]"
proof -
  define n where "n = nat (round (v * 255))"
  have "0 \<le> v * 255" "v * 255 \<le> 255"
    using assms by simp_all
  then have "round (0 :: real) \<le> round (v * 255)" "round (v * 255) \<le> round (255 :: real)"
    by (simp_all only: round_mono)
  then have lo: "0 \<le> round (v * 255)" and hi: "round (v * 255) \<le> 255"
    by simp_all
  have n: "n < 256" "round (v * 255) = int n"
    using lo hi by (simp_all add: n_def)
  have "real (n div 16 * 16 + n mod 16) / 255 = real n / 255"
    by simp
  moreover have "toDoubleHex v = toDoubleHex (real n / 255)"
    by (simp add: toDoubleHex_def n)
  ultimately have "toDoubleHex v = [digitChar (n div 16), digitChar (n mod 16)]"
    using toDoubleHex_byte [of "n div 16" "n mod 16"] n(1) by simp
  moreover have "n div 16 < 16" "n mod 16 < 16"
    using n(1) by simp_all
  ultimately show ?thesis
    using that by blast
qed

lemma tri_bounds: "- 1 \<le> tri k" "tri k \<le> 1"
  by (simp_all add: tri_def)

lemma hslChannel_range:
  assumes "0 \<le> s" "s \<le> 100" "0 \<le> l" "l \<le> 100"
  shows "0 \<le> hslChannel h s l n" and "hslChannel h s l n \<le> 1"
proof -
  define a where "a = s / 100 * min (l / 100) (1 - l / 100)"
  define T where "T = tri (jsmod (n + h / 30) 12)"
  have mn: "0 \<le> min (l / 100) (1 - l / 100)"
    using assms by simp
  have "a \<le> 1 * min (l / 100) (1 - l / 100)"
    unfolding a_def using assms mn by (intro mult_right_mono) simp_all
  then have a: "0 \<le> a" "a \<le> l / 100" "a \<le> 1 - l / 100"
    using assms mn by (simp_all add: a_def)
  have T: "- 1 \<le> T" "T \<le> 1"
    by (simp_all add: T_def tri_bounds)
  have "a * T \<le> a * 1" "a * (- 1) \<le> a * T"
    using a(1) T by (intro mult_left_mono; simp)+
  then have "- a \<le> a * T" "a * T \<le> a"
    by simp_all
  moreover have "hslChannel h s l n = l / 100 - a * T"
    by (simp add: hslChannel_tri a_def T_def)
  ultimately show "0 \<le> hslChannel h s l n" and "hslChannel h s l n \<le> 1"
    using a by linarith+
qed


lemma hslOf_upper:
  fixes r g b :: real
  assumes range: "0 \<le> r" "r \<le> 1" "0 \<le> g" "g \<le> 1" "0 \<le> b" "b \<le> 1"
    and hsl: "hslOf r g b = (h, s, l)"
  shows "s \<le> 1" and "l \<le> 1"
proof -
  define M where "M = max r (max g b)"
  define m where "m = min r (min g b)"
  have Mm: "m \<le> M" "0 \<le> m" "M \<le> 1"
    using range by (simp_all add: M_def m_def)
  have "s \<le> 1 \<and> l \<le> 1"
  proof (cases "M = m")
    case True
    then have "hslOf r g b = (0, 0, (M + m) / 2)"
      by (simp add: hslOf_def Let_def M_def m_def)
    then show ?thesis
      using hsl Mm by simp
  next
    case False
    then have "hslOf r g b =
        (hueOf r g b, (if (M + m) / 2 > 0.5 then (M - m) / (2 - M - m) else (M - m) / (M + m)),
         (M + m) / 2)"
      by (simp add: hslOf_def Let_def M_def m_def)
    then have s: "s = (if (M + m) / 2 > 0.5 then (M - m) / (2 - M - m) else (M - m) / (M + m))"
      and l: "l = (M + m) / 2"
      using hsl by simp_all
    have "s \<le> 1"
    proof (cases "(M + m) / 2 > 0.5")
      case True
      then have "0 < 2 - M - m"
        using False Mm by linarith
      then show ?thesis
        using True Mm by (simp add: s)
    next
      case False
      have "0 < M + m"
        using \<open>M \<noteq> m\<close> Mm by linarith
      then show ?thesis
        using False Mm by (simp add: s)
    qed
    then show ?thesis
      using Mm by (simp add: l)
  qed
  then show "s \<le> 1" and "l \<le> 1"
    by simp_all
qed

lemma round_nonneg:
  fixes x :: real
  assumes "0 \<le> x"
  shows "intToString 10 (round x) = natToString 10 (nat (round x))"
proof -
  have "round (0 :: real) \<le> round x"
    using assms by (simp only: round_mono)
  then show ?thesis
    by (simp add: intToString_def)
qed

lemma round_percent:
  fixes x :: real
  assumes "0 \<le> x" and "x \<le> 1"
  shows "nat (round (x * 100)) \<le> 100"
proof -
  have "x * 100 \<le> 100"
    using assms by simp
  then have "round (x * 100) \<le> round (100 :: real)"
    by (simp only: round_mono)
  then show ?thesis
    by simp
qed

lemma hsl_round_trip_value:
  assumes parse: "parseHexToRgb H = (Some r, Some g, Some b)"
    and hsl: "hslOf r g b = (h, s, l)"
    and nonneg: "0 \<le> h" "0 \<le> s" "0 \<le> l"
    and "H \<noteq> []"
  shows "toHex_hexTo c H ''hsl'' =
    Inr (Str (hslToHexNum (real (nat (round (h * 360)))) (real (nat (round (s * 100))))
      (real (nat (round (l * 100))))))"
proof -
  define hn where "hn = nat (round (h * 360))"
  define sn where "sn = nat (round (s * 100))"
  define ln where "ln = nat (round (l * 100))"
  have pr: "intToString 10 (round (h * 360)) = natToString 10 hn"
    "intToString 10 (round (s * 100)) = natToString 10 sn"
    "intToString 10 (round (l * 100)) = natToString 10 ln"
    unfolding hn_def sn_def ln_def using nonneg by (simp_all add: round_nonneg)
  have str: "hexToHsl H = ''hsl('' @ natToString 10 hn @ '', '' @ natToString 10 sn @ ''%, ''
      @ natToString 10 ln @ ''%)''"
    by (simp add: hexToHsl_def parse hsl pr)
  have lower: "toLowerCase ''hsl'' = ''hsl''"
    by (simp add: toLowerCase_def lowerChar_def)
  have there: "fst (hexTo c (Str H) (Str ''hsl'')) = Inr (Str (hexToHsl H))"
    using \<open>H \<noteq> []\<close> by (simp add: hexTo_def truthy_def lower onString_def)
  have "toHex (Str (hexToHsl H)) = map_sum id Str (hslToHex (hexToHsl H))"
    unfolding str by (rule toHex_hsl_string) simp_all
  also have "hslToHex (hexToHsl H) = Inr (hslToHexNum (real hn) (real sn) (real ln))"
    unfolding hslToHex_def str hsl_tokens by simp
  finally show ?thesis
    unfolding hn_def [symmetric] sn_def [symmetric] ln_def [symmetric]
    by (simp add: toHex_hexTo_def there)
qed

lemma hsl_round_trip_canonical:
  assumes "canonicalHex H"
  shows "\<exists>H'. canonicalHex H' \<and> toHex_hexTo c H ''hsl'' = Inr (Str H')"
proof -
  obtain a b c' d e f where H: "H = [CHR ''#'', a, b, c', d, e, f]"
    and low: "list_all isLowerHexDigit [a, b, c', d, e, f]"
    using assms by (rule canonicalHex_cases)
  define R where "R = hexDigitVal a * 16 + hexDigitVal b"
  define G where "G = hexDigitVal c' * 16 + hexDigitVal d"
  define B where "B = hexDigitVal e * 16 + hexDigitVal f"
  have dig: "hexDigitVal a < 16" "hexDigitVal b < 16" "hexDigitVal c' < 16" "hexDigitVal d < 16"
    "hexDigitVal e < 16" "hexDigitVal f < 16"
    using low by (simp_all add: digit_roundtrip)
  have parse: "parseHexToRgb H = (Some (real R / 255), Some (real G / 255), Some (real B / 255))"
    unfolding H R_def G_def B_def by (rule parseHexToRgb_canonical [OF low])
  have range: "0 \<le> real R / 255" "real R / 255 \<le> 1" "0 \<le> real G / 255" "real G / 255 \<le> 1"
    "0 \<le> real B / 255" "real B / 255 \<le> 1"
    using dig by (simp_all add: R_def G_def B_def)
  obtain h s l where hsl: "hslOf (real R / 255) (real G / 255) (real B / 255) = (h, s, l)"
    by (cases "hslOf (real R / 255) (real G / 255) (real B / 255)") auto
  note lower = hsl_inverse(4-6) [OF range hsl]
  note upper = hslOf_upper [OF range hsl]
  define hn where "hn = real (nat (round (h * 360)))"
  define sn where "sn = real (nat (round (s * 100)))"
  define ln where "ln = real (nat (round (l * 100)))"
  have result: "toHex_hexTo c H ''hsl'' = Inr (Str (hslToHexNum hn sn ln))"
    unfolding hn_def sn_def ln_def by (rule hsl_round_trip_value [OF parse hsl lower]) (simp add: H)
  have pct: "0 \<le> sn" "sn \<le> 100" "0 \<le> ln" "ln \<le> 100"
    unfolding sn_def ln_def using lower upper by (simp_all add: round_percent)
  obtain r1 r2 where r: "r1 < 16" "r2 < 16"
    "toDoubleHex (hslChannel hn sn ln 0) = [digitChar r1, digitChar r2]"
    using hslChannel_range [OF pct] by (rule toDoubleHex_unit)
  obtain g1 g2 where g: "g1 < 16" "g2 < 16"
    "toDoubleHex (hslChannel hn sn ln 8) = [digitChar g1, digitChar g2]"
    using hslChannel_range [OF pct] by (rule toDoubleHex_unit)
  obtain b1 b2 where b: "b1 < 16" "b2 < 16"
    "toDoubleHex (hslChannel hn sn ln 4) = [digitChar b1, digitChar b2]"
    using hslChannel_range [OF pct] by (rule toDoubleHex_unit)
  have "hslToHexNum hn sn ln =
      [CHR ''#'', digitChar r1, digitChar r2, digitChar g1, digitChar g2, digitChar b1, digitChar b2]"
    unfolding hslToHexNum_channels r(3) g(3) b(3) by simp
  moreover have "canonicalHex
      [CHR ''#'', digitChar r1, digitChar r2, digitChar g1, digitChar g2, digitChar b1, digitChar b2]"
    using r(1,2) g(1,2) b(1,2) by (simp add: canonicalHex_def digitChar_lower_hex)
  ultimately show ?thesis
    using result by auto
qed

lemma hsl_round_trip_exact:
  assumes "canonicalHex H" and "hslExact H"
  shows "toHex_hexTo c H ''hsl'' = Inr (Str H)"
proof -
  obtain a b c' d e f where H: "H = [CHR ''#'', a, b, c', d, e, f]"
    and low: "list_all isLowerHexDigit [a, b, c', d, e, f]"
    using assms(1) by (rule canonicalHex_cases)
  define R where "R = hexDigitVal a * 16 + hexDigitVal b"
  define G where "G = hexDigitVal c' * 16 + hexDigitVal d"
  define B where "B = hexDigitVal e * 16 + hexDigitVal f"
  have dig: "hexDigitVal a < 16" "hexDigitVal b < 16" "hexDigitVal c' < 16" "hexDigitVal d < 16"
    "hexDigitVal e < 16" "hexDigitVal f < 16"
    and inv: "digitChar (hexDigitVal a) = a" "digitChar (hexDigitVal b) = b"
    "digitChar (hexDigitVal c') = c'" "digitChar (hexDigitVal d) = d"
    "digitChar (hexDigitVal e) = e" "digitChar (hexDigitVal f) = f"
    using low by (simp_all add: digit_roundtrip)
  have parse: "parseHexToRgb H = (Some (real R / 255), Some (real G / 255), Some (real B / 255))"
    unfolding H R_def G_def B_def by (rule parseHexToRgb_canonical [OF low])
  have range: "0 \<le> real R / 255" "real R / 255 \<le> 1" "0 \<le> real G / 255" "real G / 255 \<le> 1"
    "0 \<le> real B / 255" "real B / 255 \<le> 1"
    using dig by (simp_all add: R_def G_def B_def)
  obtain h s l where hsl: "hslOf (real R / 255) (real G / 255) (real B / 255) = (h, s, l)"
    by (cases "hslOf (real R / 255) (real G / 255) (real B / 255)") auto
  have "hslExact H = (frac (h * 360) = 0 \<and> frac (s * 100) = 0 \<and> frac (l * 100) = 0)"
    by (simp add: hslExact_def parse hsl)
  then have exact: "frac (h * 360) = 0" "frac (s * 100) = 0" "frac (l * 100) = 0"
    using assms(2) by simp_all
  note chans = hsl_inverse [OF range hsl]
  have re: "real (nat (round (h * 360))) = h * 360" "real (nat (round (s * 100))) = s * 100"
    "real (nat (round (l * 100))) = l * 100"
    using chans(4-6) exact by (simp_all add: exact_round)
  have "H \<noteq> []"
    by (simp add: H)
  then have "toHex_hexTo c H ''hsl'' = Inr (Str (hslToHexNum (h * 360) (s * 100) (l * 100)))"
    using hsl_round_trip_value [OF parse hsl chans(4-6), of c] unfolding re by blast
  also have "hslToHexNum (h * 360) (s * 100) (l * 100) =
      CHR ''#'' # toDoubleHex (real R / 255) @ toDoubleHex (real G / 255) @ toDoubleHex (real B / 255)"
    unfolding hslToHexNum_channels chans(1-3) by (rule refl)
  also have "\<dots> = H"
    unfolding R_def G_def B_def toDoubleHex_byte [OF dig(1,2)] toDoubleHex_byte [OF dig(3,4)]
      toDoubleHex_byte [OF dig(5,6)] inv H by simp
  finally show ?thesis .
qed

lemma parse_336699:
  "parseHexToRgb ''#336699'' = (Some (51 / 255), Some (102 / 255), Some (153 / 255))"
proof -
  have "list_all isLowerHexDigit ''336699''"
    by (simp add: isLowerHexDigit_def)
  then show ?thesis
    by (simp add: parseHexToRgb_canonical hexDigitVal_def)
qed

text \<open>
  Claim C3, as the code has it. For every canonical hex string \<open>H\<close>,
  \<^verbatim>\<open>toHex(hexTo(H, "hsl"))\<close> is again a canonical hex string; it is \<open>H\<close> itself whenever the
  three roundings of \<open>hexToHsl\<close> change nothing (hue in degrees, saturation and lightness
  in percent are whole numbers).
\<close>

theorem hsl_round_trip:
  assumes "canonicalHex H"
  shows "(\<exists>H'. canonicalHex H' \<and> toHex_hexTo c H ''hsl'' = Inr (Str H')) \<and>
    (hslExact H \<longrightarrow> toHex_hexTo c H ''hsl'' = Inr (Str H))"
  using assms hsl_round_trip_canonical hsl_round_trip_exact by blast

theorem hsl_round_trip_witness:
  "canonicalHex ''#336699'' \<and> hslExact ''#336699'' \<and>
   toHex_hexTo None ''#336699'' ''hsl'' = Inr (Str ''#336699'')"
proof -
  have h1: "canonicalHex ''#336699''"
    by (simp add: canonicalHex_def isLowerHexDigit_def)
  have "hslOf (51 / 255) (102 / 255) (153 / 255) = (7 / 12, 1 / 2, 2 / 5)"
    by (simp add: hslOf_def hueOf_def Let_def)
  then have h2: "hslExact ''#336699''"
    by (simp add: hslExact_def parse_336699)
  show ?thesis
    using h1 h2 hsl_round_trip [OF h1, of None] by simp
qed

lemma parse_010101:
  "parseHexToRgb ''#010101'' = (Some (1 / 255), Some (1 / 255), Some (1 / 255))"
proof -
  have "list_all isLowerHexDigit ''010101''"
    by (simp add: isLowerHexDigit_def)
  then show ?thesis
    by (simp add: parseHexToRgb_canonical hexDigitVal_def)
qed

lemma hexToHsl_010101: "hexToHsl ''#010101'' = ''hsl(0, 0%, 0%)''"
  by (simp add: hexToHsl_def parse_010101 hslOf_def Let_def intToString_def round_def
      natToString_small digitChar_def)

lemma hslToHex_black: "hslToHex ''hsl(0, 0%, 0%)'' = Inr ''#000000''"
proof -
  have "map Number (matchNumbers ''hsl(0, 0%, 0%)'') = [0, 0, 0]"
    by (simp add: number_defs)
  then show ?thesis
    unfolding hslToHex_def
    by (simp add: hslToHexNum_channels hslChannel_def toDoubleHex_def intToString_def
        natToString_small digitChar_def padStart_def)
qed

text \<open>
  The claim as the specification states it fails: \<^verbatim>\<open>#010101\<close> becomes \<^verbatim>\<open>hsl(0, 0%, 0%)\<close>,
  which is black.
\<close>

theorem hsl_round_trip_loses_010101:
  "canonicalHex ''#010101'' \<and>
   toHex_hexTo None ''#010101'' ''hsl'' = Inr (Str ''#000000'') \<and>
   toHex_hexTo None ''#010101'' ''hsl'' \<noteq> Inr (Str ''#010101'')"
proof -
  have lower: "toLowerCase ''hsl'' = ''hsl''"
    by (simp add: toLowerCase_def lowerChar_def)
  have there: "fst (hexTo None (Str ''#010101'') (Str ''hsl'')) = Inr (Str ''hsl(0, 0%, 0%)'')"
    by (simp add: hexTo_def truthy_def lower onString_def hexToHsl_010101)
  have "toHex (Str ''hsl(0, 0%, 0%)'') = Inr (Str ''#000000'')"
    by (simp add: toHex_def trim_def isWhiteSpace_def startsWith_def hslToHex_black)
  then have "toHex_hexTo None ''#010101'' ''hsl'' = Inr (Str ''#000000'')"
    by (simp add: toHex_hexTo_def there)
  then show ?thesis
    by (simp add: canonicalHex_def isLowerHexDigit_def)
qed

section \<open>Channels out of range\<close>

lemma hsl_tokens_200: "map Number (matchNumbers ''hsl(0, 0%, 200%)'') = [0, 0, 200]"
  by (simp add: number_defs)

lemma toDoubleHex_2: "toDoubleHex 2 = ''1fe''"
  by (simp add: toDoubleHex_def number_defs)

text \<open>
  Claim C6. \<open>toDoubleHex\<close> does not saturate: the channel value 2, which \<open>hslToHex\<close>
  computes for a lightness of 200%, is written with three hex digits, and the string
  returned for \<^verbatim>\<open>hsl(0, 0%, 200%)\<close> has nine digits after the \<^verbatim>\<open>#\<close>.
\<close>

theorem hsl_channel_not_saturated:
  "toDoubleHex 2 = ''1fe'' \<and>
   hslToHex ''hsl(0, 0%, 200%)'' = Inr ''#1fe1fe1fe'' \<and>
   toHex (Str ''hsl(0, 0%, 200%)'') = Inr (Str ''#1fe1fe1fe'')"
proof -
  have hsl: "hslToHex ''hsl(0, 0%, 200%)'' = Inr ''#1fe1fe1fe''"
    unfolding hslToHex_def hsl_tokens_200 by (simp add: hslToHexNum_def toDoubleHex_2)
  show ?thesis
    by (simp add: toDoubleHex_2 hsl toHex_def trim_def isWhiteSpace_def startsWith_def)
qed

text \<open>
  The sibling paths do saturate: \<open>lchToHex\<close> and \<open>oklchToHex\<close> pass every channel
  through \<open>clamp\<close>, and their result is a canonical hex string for all numbers.
\<close>

lemma clamped_channels_canonical:
  "canonicalHex (CHR ''#'' # toDoubleHex (clamp x) @ toDoubleHex (clamp y) @ toDoubleHex (clamp z))"
proof -
  have unit: "0 \<le> clamp v" "clamp v \<le> 1" for v
    by (simp_all add: clamp_def)
  obtain x1 x2 where x: "x1 < 16" "x2 < 16" "toDoubleHex (clamp x) = [digitChar x1, digitChar x2]"
    using unit by (rule toDoubleHex_unit)
  obtain y1 y2 where y: "y1 < 16" "y2 < 16" "toDoubleHex (clamp y) = [digitChar y1, digitChar y2]"
    using unit by (rule toDoubleHex_unit)
  obtain z1 z2 where z: "z1 < 16" "z2 < 16" "toDoubleHex (clamp z) = [digitChar z1, digitChar z2]"
    using unit by (rule toDoubleHex_unit)
  show ?thesis
    unfolding x(3) y(3) z(3) using x(1,2) y(1,2) z(1,2)
    by (simp add: canonicalHex_def digitChar_lower_hex)
qed

lemma lch_oklch_canonical:
  "canonicalHex (lchToHexNum l c h)" and "canonicalHex (oklchToHexNum l c h)"
  unfolding lchToHexNum_def oklchToHexNum_def Let_def by (rule clamped_channels_canonical)+

end
